theory Spec2Isabelle
  imports Complex_Main
begin

section \<open>Text: Python strings and \<^verbatim>\<open>normalize.py\<close>\<close>

text \<open>
  A Python \<^verbatim>\<open>str\<close> is a sequence of Unicode code points: a list of naturals.
  The character tables of the runtime (\<^verbatim>\<open>unicodedata\<close>, \<^verbatim>\<open>str.lower\<close>,
  the classes \<^verbatim>\<open>\w\<close> and \<^verbatim>\<open>\s\<close> of \<^verbatim>\<open>re\<close>) are not part of the
  repository. Their ASCII part is fixed and written out below; beyond ASCII they are the
  fields of a record that every function takes as a parameter.  Identifiers that the
  program only compares (domain, vocabulary, flags, relationship names) are plain strings.
\<close>

type_synonym ustring = "nat list"

record ucd =
  decomposition :: "nat \<Rightarrow> nat list"
  combining :: "nat \<Rightarrow> nat"
  to_lower :: "nat list \<Rightarrow> nat \<Rightarrow> nat list \<Rightarrow> nat list"
  isalnum :: "nat \<Rightarrow> bool"
  isspace :: "nat \<Rightarrow> bool"

text \<open>
  \<^item> \<open>decomposition\<close>: the full compatibility decomposition of one code point;
  \<^item> \<open>combining\<close>: \<^verbatim>\<open>unicodedata.combining\<close>, the canonical combining class;
  \<^item> \<open>to_lower\<close>: the lower-case mapping of one code point between a left and a right
    context (the mapping of capital sigma depends on its neighbours);
  \<^item> \<open>isalnum\<close>, \<open>isspace\<close>: \<^verbatim>\<open>str.isalnum\<close> and \<^verbatim>\<open>str.isspace\<close>.
\<close>

definition py_decomposition :: "ucd \<Rightarrow> nat \<Rightarrow> nat list" where
  "py_decomposition u c = (if c < 128 then [c] else decomposition u c)"

definition py_combining :: "ucd \<Rightarrow> nat \<Rightarrow> nat" where
  "py_combining u c = (if c < 128 then 0 else combining u c)"

definition py_lower_char :: "ucd \<Rightarrow> nat list \<Rightarrow> nat \<Rightarrow> nat list \<Rightarrow> nat list" where
  "py_lower_char u l c r =
     (if c < 128 then (if 65 \<le> c \<and> c \<le> 90 then [c + 32] else [c]) else to_lower u l c r)"

definition py_isalnum :: "ucd \<Rightarrow> nat \<Rightarrow> bool" where
  "py_isalnum u c =
     (if c < 128 then (48 \<le> c \<and> c \<le> 57) \<or> (65 \<le> c \<and> c \<le> 90) \<or> (97 \<le> c \<and> c \<le> 122)
      else isalnum u c)"

definition py_isspace :: "ucd \<Rightarrow> nat \<Rightarrow> bool" where
  "py_isspace u c =
     (if c < 128 then (9 \<le> c \<and> c \<le> 13) \<or> (28 \<le> c \<and> c \<le> 32) else isspace u c)"

text \<open>The class \<^verbatim>\<open>\w\<close> of a \<^verbatim>\<open>str\<close> pattern: alphanumeric or the underscore.\<close>

definition is_word :: "ucd \<Rightarrow> nat \<Rightarrow> bool" where
  "is_word u c = (c = 95 \<or> py_isalnum u c)"

text \<open>
  \<^verbatim>\<open>unicodedata.normalize("NFKD", text)\<close>: every code point is replaced by its
  decomposition, then every mark with a non-zero combining class is moved left over the
  marks of a greater class that precede it.  The accumulator holds the text read so far,
  last code point first.
\<close>

fun canonical_insert :: "(nat \<Rightarrow> nat) \<Rightarrow> nat \<Rightarrow> nat list \<Rightarrow> nat list" where
  "canonical_insert cc c [] = [c]"
| "canonical_insert cc c (p # ps) =
     (if cc c \<noteq> 0 \<and> cc c < cc p then p # canonical_insert cc c ps else c # p # ps)"

definition canonical_order :: "(nat \<Rightarrow> nat) \<Rightarrow> nat list \<Rightarrow> nat list" where
  "canonical_order cc s = rev (foldl (\<lambda>acc c. canonical_insert cc c acc) [] s)"

definition nfkd :: "ucd \<Rightarrow> ustring \<Rightarrow> ustring" where
  "nfkd u s = canonical_order (py_combining u) (concat (map (py_decomposition u) s))"

text \<open>\<^verbatim>\<open>text.lower()\<close>, code point by code point, each between what is left and right of it.\<close>

fun lower_from :: "ucd \<Rightarrow> nat list \<Rightarrow> nat list \<Rightarrow> nat list" where
  "lower_from u l [] = []"
| "lower_from u l (c # r) = py_lower_char u l c r @ lower_from u (l @ [c]) r"

definition py_lower :: "ucd \<Rightarrow> ustring \<Rightarrow> ustring" where
  "py_lower u s = lower_from u [] s"

text \<open>\<^verbatim>\<open>"".join(char for char in text if not unicodedata.combining(char))\<close>\<close>

definition strip_combining :: "ucd \<Rightarrow> ustring \<Rightarrow> ustring" where
  "strip_combining u s = filter (\<lambda>c. py_combining u c = 0) s"

text \<open>\<^verbatim>\<open>re.sub(r"[^\w\s]", " ", text)\<close>\<close>

definition sub_non_word :: "ucd \<Rightarrow> ustring \<Rightarrow> ustring" where
  "sub_non_word u s = map (\<lambda>c. if is_word u c \<or> py_isspace u c then c else 32) s"

text \<open>
  \<^verbatim>\<open>text.split()\<close> cuts at runs of white space and returns no empty piece;
  \<open>cur\<close> is the piece being read.  \<^verbatim>\<open>" ".join(...)\<close> puts one space between pieces.
\<close>

fun split_ws :: "(nat \<Rightarrow> bool) \<Rightarrow> nat list \<Rightarrow> nat list \<Rightarrow> nat list list" where
  "split_ws sp cur [] = (if cur = [] then [] else [cur])"
| "split_ws sp cur (c # cs) =
     (if sp c then (if cur = [] then split_ws sp [] cs else cur # split_ws sp [] cs)
      else split_ws sp (cur @ [c]) cs)"

definition py_split :: "ucd \<Rightarrow> ustring \<Rightarrow> ustring list" where
  "py_split u s = split_ws (py_isspace u) [] s"

fun join_space :: "ustring list \<Rightarrow> ustring" where
  "join_space [] = []"
| "join_space [t] = t"
| "join_space (t # ts) = t @ 32 # join_space ts"

definition normalize_text :: "ucd \<Rightarrow> ustring \<Rightarrow> ustring" where
  "normalize_text u text =
     (if text = [] then []
      else join_space (py_split u (sub_non_word u (strip_combining u (py_lower u (nfkd u text))))))"

definition tokenize :: "ucd \<Rightarrow> ustring \<Rightarrow> ustring list" where
  "tokenize u text = py_split u text"

text \<open>
  The condition on the tables under which the normal form is stable: a word character
  that survives decomposition, lower-casing and the removal of marks has no further
  decomposition, is its own lower-case form in every context, and is not white space.
\<close>

definition tables_ok :: "ucd \<Rightarrow> bool" where
  "tables_ok u =
     (\<forall>c. \<forall>d \<in> set (py_decomposition u c). \<forall>l r. \<forall>e \<in> set (py_lower_char u l d r).
        py_combining u e = 0 \<and> is_word u e \<longrightarrow>
          py_decomposition u e = [e] \<and> (\<forall>l' r'. py_lower_char u l' e r' = [e]) \<and> \<not> py_isspace u e)"

definition word_fixed :: "ucd \<Rightarrow> nat \<Rightarrow> bool" where
  "word_fixed u c =
     (py_decomposition u c = [c] \<and> py_combining u c = 0 \<and> (\<forall>l r. py_lower_char u l c r = [c])
      \<and> is_word u c \<and> \<not> py_isspace u c)"

definition fixed_char :: "ucd \<Rightarrow> nat \<Rightarrow> bool" where
  "fixed_char u c = (c = 32 \<or> word_fixed u c)"

text \<open>
  A table for trying the functions on ASCII text: beyond ASCII every code point is an
  undecomposed symbol that is neither alphanumeric nor white space.  \<open>ustr\<close> reads an
  ASCII literal as a Python string.
\<close>

definition ascii_only :: ucd where
  "ascii_only = \<lparr>decomposition = (\<lambda>c. [c]), combining = (\<lambda>c. 0), to_lower = (\<lambda>l c r. [c]),
                  isalnum = (\<lambda>c. False), isspace = (\<lambda>c. False)\<rparr>"

definition ustr :: "string \<Rightarrow> ustring" where
  "ustr s = map of_char s"


section \<open>Results and configuration: \<^verbatim>\<open>models.py\<close>, \<^verbatim>\<open>config.py\<close>\<close>

text \<open>
  Python floats are modelled by real numbers: rounding is not part of the model.
  \<^verbatim>\<open>search_time_ms\<close> and \<^verbatim>\<open>total_time_ms\<close> are clock readings and are left out.
  A warning is a fixed text, except the one that prints the confidence and the threshold
  into the text: \<open>Below_threshold\<close> keeps the two numbers.
\<close>

datatype error = KeyError string | IndexError | DatabaseError string

datatype MatchType = EXACT_NAME | EXACT_SYNONYM | FUZZY_NAME | FUZZY_SYNONYM | SEMANTIC

datatype ResolutionStatus = ALREADY_STANDARD | MAPPED_TO_STANDARD | NO_MAPPING_AVAILABLE

datatype warning = Message string | Below_threshold real real

record LookupConfig =
  fuzzy_high_confidence :: real
  fuzzy_min_threshold :: real
  semantic_high_confidence :: real
  semantic_min_threshold :: real
  confidence_threshold :: real
  top_k_candidates :: int
  vocabulary_preferences :: "(string \<times> (string \<times> real) list) list"
  default_vocab_weight :: real
  max_fuzzy_candidates :: nat

definition DEFAULT_CONFIG :: LookupConfig where
  "DEFAULT_CONFIG = \<lparr>
     fuzzy_high_confidence = 95,
     fuzzy_min_threshold = 70,
     semantic_high_confidence = 85 / 100,
     semantic_min_threshold = 60 / 100,
     confidence_threshold = 75 / 100,
     top_k_candidates = 5,
     vocabulary_preferences =
       [(''Condition'', [(''SNOMED'', 1), (''ICD10CM'', 8 / 10), (''ICD9CM'', 6 / 10), (''MedDRA'', 7 / 10)]),
        (''Procedure'', [(''SNOMED'', 1), (''CPT4'', 95 / 100), (''HCPCS'', 85 / 100),
                         (''ICD10PCS'', 8 / 10), (''ICD9Proc'', 6 / 10)]),
        (''Drug'', [(''RxNorm'', 1), (''RxNorm Extension'', 95 / 100), (''NDC'', 7 / 10), (''ATC'', 6 / 10)]),
        (''Measurement'', [(''LOINC'', 1), (''SNOMED'', 8 / 10)]),
        (''Observation'', [(''SNOMED'', 1), (''LOINC'', 9 / 10)]),
        (''Device'', [(''SNOMED'', 1), (''HCPCS'', 8 / 10)]),
        (''Specimen'', [(''SNOMED'', 1)]),
        (''default'', [(''SNOMED'', 1), (''RxNorm'', 9 / 10), (''LOINC'', 9 / 10)])],
     default_vocab_weight = 5 / 10,
     max_fuzzy_candidates = 1000 \<rparr>"

section \<open>The vocabulary store: \<^verbatim>\<open>database.py\<close>\<close>

text \<open>
  A table is the list of its rows.  A column that the program reads as \<^verbatim>\<open>NULL\<close>
  (\<^verbatim>\<open>standard_concept\<close>, \<^verbatim>\<open>invalid_reason\<close>, \<^verbatim>\<open>concept_code\<close>) is an option;
  identifiers and texts are taken to be present.  Where SQL leaves the order of the rows
  open (\<^verbatim>\<open>LIMIT\<close> without \<^verbatim>\<open>ORDER BY\<close>), the model takes them in table order.
\<close>

record synonym_row =
  concept_id :: int
  concept_synonym_name :: ustring
  language_concept_id :: int

record relationship_row =
  concept_id_1 :: int
  concept_id_2 :: int
  relationship_id :: string
  invalid_reason :: "string option"

record maps_to_row =
  source_concept_id :: int
  standard_concept_id :: int
  standard_concept_name :: ustring
  standard_domain_id :: string
  standard_vocabulary_id :: string

record concept_core =
  concept_id :: int
  concept_name :: ustring
  domain_id :: string
  vocabulary_id :: string
  concept_class_id :: string
  standard_concept :: "string option"
  concept_code :: "string option"

record concept_row = concept_core +
  invalid_reason :: "string option"

record search_row = concept_row +
  search_text :: ustring
  source_type :: string
  search_text_normalized :: ustring

text \<open>
  The dictionaries that the queries return.  A key that a query does not select is
  \<open>None\<close>: \<^verbatim>\<open>exact_match\<close> selects no \<^verbatim>\<open>search_text_normalized\<close>, and
  \<^verbatim>\<open>get_concept_by_id\<close> selects neither \<^verbatim>\<open>search_text\<close> nor \<^verbatim>\<open>source_type\<close>.
\<close>

record concept_data = concept_core +
  search_text :: "ustring option"
  source_type :: "string option"
  search_text_normalized :: "ustring option"

record OMOPDatabase =
  concept :: "concept_row list"
  concept_synonym :: "synonym_row list"
  concept_relationship :: "relationship_row list"
  maps_to_lookup :: "maps_to_row list"
  concept_search :: "search_row list"

text \<open>\<^verbatim>\<open>_create_maps_to_lookup\<close>: the join of the relationships with their target concepts.\<close>

definition create_maps_to_lookup :: "concept_row list \<Rightarrow> relationship_row list \<Rightarrow> maps_to_row list" where
  "create_maps_to_lookup concepts relationships =
     remdups (concat (map (\<lambda>cr.
        map (\<lambda>target. \<lparr>source_concept_id = concept_id_1 cr,
                        standard_concept_id = concept_core.concept_id target,
                        standard_concept_name = concept_name target,
                        standard_domain_id = domain_id target,
                        standard_vocabulary_id = vocabulary_id target\<rparr>)
          (filter (\<lambda>target. concept_id_2 cr = concept_core.concept_id target
                      \<and> relationship_id cr = ''Maps to''
                      \<and> relationship_row.invalid_reason cr = None
                      \<and> standard_concept target = Some ''S''
                      \<and> concept_row.invalid_reason target = None) concepts))
        relationships))"

text \<open>
  The normalized column of \<^verbatim>\<open>_create_search_table\<close>:
  \<^verbatim>\<open>trim(regexp_replace(translate(lower(...), '.,;:!?()[]{}/<>\|@#$%^&*+=~`"''_-', ' ... '), ' +', ' ', 'g'))\<close>.
  The engine's \<^verbatim>\<open>lower\<close> beyond ASCII is the parameter \<open>sql_lower\<close>.
\<close>

definition translate_punctuation :: "nat \<Rightarrow> nat" where
  "translate_punctuation c =
     (if c \<in> set [46, 44, 59, 58, 33, 63, 40, 41, 91, 93, 123, 125, 47, 60, 62, 92, 124, 64, 35, 36,
                   37, 94, 38, 42, 43, 61, 126, 96, 34, 39, 95, 45]
      then 32 else c)"

fun collapse_spaces :: "bool \<Rightarrow> nat list \<Rightarrow> nat list" where
  "collapse_spaces after_space [] = []"
| "collapse_spaces after_space (c # cs) =
     (if c = 32 then (if after_space then collapse_spaces True cs else 32 # collapse_spaces True cs)
      else c # collapse_spaces False cs)"

definition trim :: "nat list \<Rightarrow> nat list" where
  "trim s = rev (dropWhile (\<lambda>c. c = 32) (rev (dropWhile (\<lambda>c. c = 32) s)))"

definition sql_normalize :: "(nat \<Rightarrow> nat) \<Rightarrow> ustring \<Rightarrow> ustring" where
  "sql_normalize sql_lower s =
     trim (collapse_spaces False (map translate_punctuation
       (map (\<lambda>c. if c < 128 then (if 65 \<le> c \<and> c \<le> 90 then c + 32 else c) else sql_lower c) s)))"

definition create_search_table ::
  "(nat \<Rightarrow> nat) \<Rightarrow> concept_row list \<Rightarrow> synonym_row list \<Rightarrow> search_row list" where
  "create_search_table sql_lower concepts synonyms =
     map (\<lambda>c. \<lparr>concept_id = concept_core.concept_id c, concept_name = concept_name c,
                domain_id = domain_id c, vocabulary_id = vocabulary_id c,
                concept_class_id = concept_class_id c, standard_concept = standard_concept c,
                concept_code = concept_code c, invalid_reason = concept_row.invalid_reason c,
                search_row.search_text = concept_name c, search_row.source_type = ''name'',
                search_row.search_text_normalized = sql_normalize sql_lower (concept_name c)\<rparr>)
       (filter (\<lambda>c. concept_row.invalid_reason c = None) concepts)
     @ concat (map (\<lambda>s.
         map (\<lambda>c. \<lparr>concept_id = synonym_row.concept_id s, concept_name = concept_name c,
                    domain_id = domain_id c, vocabulary_id = vocabulary_id c,
                    concept_class_id = concept_class_id c, standard_concept = standard_concept c,
                    concept_code = concept_code c, invalid_reason = concept_row.invalid_reason c,
                    search_row.search_text = concept_synonym_name s, search_row.source_type = ''synonym'',
                    search_row.search_text_normalized = sql_normalize sql_lower (concept_synonym_name s)\<rparr>)
           (filter (\<lambda>c. synonym_row.concept_id s = concept_core.concept_id c
                       \<and> concept_row.invalid_reason c = None) concepts))
         synonyms)"

text \<open>\<^verbatim>\<open>initialize\<close>: the three loaded tables and the two tables derived from them.\<close>

definition initialize ::
  "(nat \<Rightarrow> nat) \<Rightarrow> concept_row list \<Rightarrow> synonym_row list \<Rightarrow> relationship_row list \<Rightarrow> OMOPDatabase" where
  "initialize sql_lower concepts synonyms relationships =
     \<lparr>concept = concepts, concept_synonym = synonyms, concept_relationship = relationships,
      maps_to_lookup = create_maps_to_lookup concepts relationships,
      concept_search = create_search_table sql_lower concepts synonyms\<rparr>"


subsection \<open>Queries\<close>

text \<open>\<^verbatim>\<open>if domain_filter:\<close> holds for a filter that is neither \<^verbatim>\<open>None\<close> nor empty.\<close>

definition filter_applies :: "string option \<Rightarrow> search_row \<Rightarrow> bool" where
  "filter_applies domain_filter r =
     (case domain_filter of None \<Rightarrow> True
      | Some d \<Rightarrow> if d \<noteq> [] then domain_id r = d else True)"

definition exact_match :: "OMOPDatabase \<Rightarrow> ustring \<Rightarrow> string option \<Rightarrow> nat \<Rightarrow> concept_data list" where
  "exact_match database normalized_query domain_filter limit =
     map (\<lambda>r. \<lparr>concept_id = concept_core.concept_id r, concept_name = concept_name r,
                domain_id = domain_id r, vocabulary_id = vocabulary_id r,
                concept_class_id = concept_class_id r, standard_concept = standard_concept r,
                concept_code = concept_code r,
                search_text = Some (search_row.search_text r),
                source_type = Some (search_row.source_type r),
                search_text_normalized = None\<rparr>)
       (take limit (filter (\<lambda>r. search_row.search_text_normalized r = normalized_query
                                \<and> filter_applies domain_filter r) (concept_search database)))"

text \<open>
  The pattern language of \<^verbatim>\<open>LIKE\<close>: \<^verbatim>\<open>%\<close> (37) stands for any text and
  \<^verbatim>\<open>_\<close> (95) for any one character.
\<close>

fun like :: "nat list \<Rightarrow> nat list \<Rightarrow> bool" where
  "like [] s = (s = [])"
| "like (p # ps) [] = (p = 37 \<and> like ps [])"
| "like (p # ps) (c # cs) =
     (if p = 37 then like ps (c # cs) \<or> like (p # ps) cs
      else (p = 95 \<or> p = c) \<and> like ps cs)"

text \<open>
  \<^verbatim>\<open>get_candidates_by_token_overlap\<close> writes the tokens and the domain filter into the
  text of its statement, between single quotes, and has the engine execute the text:
  \<^verbatim>\<open>WHERE (search_text_normalized LIKE '%token%' OR ...) AND domain_id = 'filter' LIMIT n\<close>.
  A quote inside the filter ends the string, and what follows it is read as SQL.  The
  model reads the text after \<^verbatim>\<open>domain_id = \<close> as the engine does, as far as this goes:
  a string (a doubled quote in it is one quote), then comparisons \<^verbatim>\<open>a = b\<close> of strings
  and of the column \<^verbatim>\<open>domain_id\<close>, each after \<^verbatim>\<open>AND\<close> or \<^verbatim>\<open>OR\<close>, where
  \<^verbatim>\<open>AND\<close> binds more than \<^verbatim>\<open>OR\<close>.  For every other text (and for a token with a
  quote in it) the answer of the engine, rows or an exception, is the parameter
  \<open>execute_other\<close>, of which nothing is assumed.
\<close>

datatype sql_token = Literal string | Word string | Equals

datatype lex_state = Start | In_literal string | Quote_seen string | In_word string

definition sql_space :: "char \<Rightarrow> bool" where
  "sql_space c = (c = CHR '' '' \<or> c = CHR 0x09 \<or> c = CHR 0x0A \<or> c = CHR 0x0D)"

definition sql_word_char :: "char \<Rightarrow> bool" where
  "sql_word_char c =
     (let n = (of_char c :: nat)
      in (48 \<le> n \<and> n \<le> 57) \<or> (65 \<le> n \<and> n \<le> 90) \<or> (97 \<le> n \<and> n \<le> 122) \<or> n = 95)"

definition sql_fold_case :: "string \<Rightarrow> string" where
  "sql_fold_case w =
     map (\<lambda>c. if 65 \<le> (of_char c :: nat) \<and> (of_char c :: nat) \<le> 90
              then char_of ((of_char c :: nat) + 32) else c) w"

fun sql_lex :: "lex_state \<Rightarrow> string \<Rightarrow> sql_token list option" where
  "sql_lex Start [] = Some []"
| "sql_lex (In_literal acc) [] = None"
| "sql_lex (Quote_seen acc) [] = Some [Literal acc]"
| "sql_lex (In_word acc) [] = Some [Word acc]"
| "sql_lex Start (c # cs) =
     (if c = CHR 0x27 then sql_lex (In_literal []) cs
      else if sql_space c then sql_lex Start cs
      else if c = CHR ''='' then map_option ((#) Equals) (sql_lex Start cs)
      else if sql_word_char c then sql_lex (In_word [c]) cs
      else None)"
| "sql_lex (In_literal acc) (c # cs) =
     (if c = CHR 0x27 then sql_lex (Quote_seen acc) cs
      else sql_lex (In_literal (acc @ [c])) cs)"
| "sql_lex (Quote_seen acc) (c # cs) =
     (if c = CHR 0x27 then sql_lex (In_literal (acc @ [c])) cs
      else if sql_space c then map_option ((#) (Literal acc)) (sql_lex Start cs)
      else if c = CHR ''='' then map_option (\<lambda>ts. Literal acc # Equals # ts) (sql_lex Start cs)
      else None)"
| "sql_lex (In_word acc) (c # cs) =
     (if sql_word_char c then sql_lex (In_word (acc @ [c])) cs
      else if sql_space c then map_option ((#) (Word acc)) (sql_lex Start cs)
      else if c = CHR ''='' then map_option (\<lambda>ts. Word acc # Equals # ts) (sql_lex Start cs)
      else None)"

datatype sql_operand = Text_literal string | Domain_id_column

definition operand :: "sql_token \<Rightarrow> sql_operand option" where
  "operand t =
     (case t of
        Literal v \<Rightarrow> Some (Text_literal v)
      | Word w \<Rightarrow> if sql_fold_case w = ''domain_id'' then Some Domain_id_column else None
      | Equals \<Rightarrow> None)"

text \<open>\<open>True\<close> stands for \<^verbatim>\<open>OR\<close>, \<open>False\<close> for \<^verbatim>\<open>AND\<close>.\<close>

definition connective :: "sql_token \<Rightarrow> bool option" where
  "connective t =
     (case t of
        Word w \<Rightarrow> if sql_fold_case w = ''or'' then Some True
                  else if sql_fold_case w = ''and'' then Some False else None
      | _ \<Rightarrow> None)"

fun parse_comparisons :: "sql_token list \<Rightarrow> (bool \<times> sql_operand \<times> sql_operand) list option" where
  "parse_comparisons [] = Some []"
| "parse_comparisons (k # a # Equals # b # rest) =
     (case connective k of
        None \<Rightarrow> None
      | Some is_or \<Rightarrow>
          (case operand a of
             None \<Rightarrow> None
           | Some x \<Rightarrow>
               (case operand b of
                  None \<Rightarrow> None
                | Some y \<Rightarrow>
                    (case parse_comparisons rest of
                       None \<Rightarrow> None
                     | Some cmps \<Rightarrow> Some ((is_or, x, y) # cmps)))))"
| "parse_comparisons _ = None"

text \<open>The text \<^verbatim>\<open>'filter'\<close>: the string that \<^verbatim>\<open>domain_id\<close> is compared with, and the
  comparisons after it.\<close>

definition parse_filter :: "string \<Rightarrow> (string \<times> (bool \<times> sql_operand \<times> sql_operand) list) option" where
  "parse_filter d =
     (case sql_lex (In_literal []) (d @ [CHR 0x27]) of
        Some (Literal v # toks) \<Rightarrow>
          (case parse_comparisons toks of None \<Rightarrow> None | Some cmps \<Rightarrow> Some (v, cmps))
      | _ \<Rightarrow> None)"

definition operand_value :: "search_row \<Rightarrow> sql_operand \<Rightarrow> string" where
  "operand_value r x = (case x of Text_literal v \<Rightarrow> v | Domain_id_column \<Rightarrow> domain_id r)"

text \<open>The value of \<^verbatim>\<open>cur AND/OR a = b AND/OR ...\<close>, \<open>cur\<close> being the conjunction read so far.\<close>

fun eval_comparisons :: "search_row \<Rightarrow> bool \<Rightarrow> (bool \<times> sql_operand \<times> sql_operand) list \<Rightarrow> bool" where
  "eval_comparisons r cur [] = cur"
| "eval_comparisons r cur ((is_or, x, y) # rest) =
     (if is_or then cur \<or> eval_comparisons r (operand_value r x = operand_value r y) rest
      else eval_comparisons r (cur \<and> operand_value r x = operand_value r y) rest)"

definition token_condition :: "ustring list \<Rightarrow> search_row \<Rightarrow> bool" where
  "token_condition tokens r =
     (\<exists>token \<in> set tokens. like (37 # token @ [37]) (search_row.search_text_normalized r))"

definition overlap_rows ::
  "(ustring list \<Rightarrow> string \<Rightarrow> nat \<Rightarrow> error + search_row list) \<Rightarrow> OMOPDatabase \<Rightarrow> ustring list
     \<Rightarrow> string option \<Rightarrow> nat \<Rightarrow> error + search_row list" where
  "overlap_rows execute_other database tokens domain_filter limit =
     (if \<exists>token \<in> set tokens. 39 \<in> set token
      then execute_other tokens (case domain_filter of None \<Rightarrow> [] | Some d \<Rightarrow> d) limit
      else (case domain_filter of
              None \<Rightarrow> Inr (take limit (filter (token_condition tokens) (concept_search database)))
            | Some d \<Rightarrow>
                if d \<noteq> [] then
                  (case parse_filter d of
                     None \<Rightarrow> execute_other tokens d limit
                   | Some (v, cmps) \<Rightarrow>
                       Inr (take limit (filter
                         (\<lambda>r. eval_comparisons r (token_condition tokens r \<and> domain_id r = v) cmps)
                         (concept_search database))))
                else Inr (take limit (filter (token_condition tokens) (concept_search database)))))"

definition get_candidates_by_token_overlap ::
  "(ustring list \<Rightarrow> string \<Rightarrow> nat \<Rightarrow> error + search_row list) \<Rightarrow> OMOPDatabase \<Rightarrow> ustring list
     \<Rightarrow> string option \<Rightarrow> nat \<Rightarrow> nat \<Rightarrow> error + concept_data list" where
  "get_candidates_by_token_overlap execute_other database tokens domain_filter min_overlap limit =
     (if tokens = [] then Inr []
      else (case overlap_rows execute_other database tokens domain_filter limit of
              Inl e \<Rightarrow> Inl e
            | Inr rows \<Rightarrow>
                Inr (map (\<lambda>r. \<lparr>concept_id = concept_core.concept_id r, concept_name = concept_name r,
                       domain_id = domain_id r, vocabulary_id = vocabulary_id r,
                       concept_class_id = concept_class_id r, standard_concept = standard_concept r,
                       concept_code = concept_code r,
                       search_text = Some (search_row.search_text r),
                       source_type = Some (search_row.source_type r),
                       search_text_normalized = Some (search_row.search_text_normalized r)\<rparr>)
                  rows)))"

definition get_maps_to :: "OMOPDatabase \<Rightarrow> int \<Rightarrow> maps_to_row option" where
  "get_maps_to database cid =
     (case filter (\<lambda>m. source_concept_id m = cid) (maps_to_lookup database) of
        [] \<Rightarrow> None
      | m # _ \<Rightarrow> Some m)"

definition get_concept_by_id :: "OMOPDatabase \<Rightarrow> int \<Rightarrow> concept_data option" where
  "get_concept_by_id database cid =
     (case filter (\<lambda>c. concept_core.concept_id c = cid) (concept database) of
        [] \<Rightarrow> None
      | c # _ \<Rightarrow> Some \<lparr>concept_id = concept_core.concept_id c, concept_name = concept_name c,
                domain_id = domain_id c, vocabulary_id = vocabulary_id c,
                concept_class_id = concept_class_id c, standard_concept = standard_concept c,
                concept_code = concept_code c,
                search_text = None, source_type = None, search_text_normalized = None\<rparr>)"


section \<open>The search engine: \<^verbatim>\<open>search.py\<close>\<close>

text \<open>
  What the engine calls outside the repository is a parameter: the character tables, the
  scorer \<^verbatim>\<open>fuzz.WRatio\<close>, the semantic index and the store on disk.  The index
  either fails to import, or is not available, or answers a query and a number of
  neighbours with an exception text or a list of concept ids with their similarities.
  \<open>execute_other\<close> is the answer of the database engine to a statement of the token
  query that the model does not read.
\<close>

datatype semantic_backend =
    Import_Error
  | Not_Available
  | Available "ustring \<Rightarrow> int \<Rightarrow> string + (int \<times> real) list"

record runtime =
  tables :: ucd
  WRatio :: "ustring \<Rightarrow> ustring \<Rightarrow> real"
  semantic :: semantic_backend
  db_instance :: OMOPDatabase
  execute_other :: "ustring list \<Rightarrow> string \<Rightarrow> nat \<Rightarrow> error + search_row list"

record ConceptSearcher =
  config :: LookupConfig
  db :: OMOPDatabase
  enable_semantic :: bool

text \<open>An entry of a result list of the fuzzy or the semantic tier.\<close>

record scored =
  concept :: concept_data
  score :: real
  matched_text :: ustring

text \<open>An entry of \<^verbatim>\<open>candidates_by_id\<close>.\<close>

record candidate =
  concept :: concept_data
  fuzzy_score :: real
  semantic_score :: real
  match_type :: MatchType

record ConceptMatch = concept_core +
  confidence :: real
  match_type :: MatchType
  matched_text :: ustring
  resolution_status :: ResolutionStatus
  standard_concept_id :: "int option"
  standard_concept_name :: "ustring option"

record LookupResult =
  query :: ustring
  normalized_query :: ustring
  domain_filter :: "string option"
  success :: bool
  best_match :: "ConceptMatch option"
  candidates :: "ConceptMatch list"
  warnings :: "warning list"


definition is_usable_for_analytics :: "ConceptMatch \<Rightarrow> bool" where
  "is_usable_for_analytics m =
     (resolution_status m = ALREADY_STANDARD \<or> resolution_status m = MAPPED_TO_STANDARD)"

definition get_analytics_concept_id :: "ConceptMatch \<Rightarrow> int option" where
  "get_analytics_concept_id m =
     (if resolution_status m = ALREADY_STANDARD then Some (concept_id m)
      else if resolution_status m = MAPPED_TO_STANDARD then standard_concept_id m
      else None)"

subsection \<open>Python lists and dictionaries\<close>

text \<open>
  \<^verbatim>\<open>xs[:n]\<close> for an integer \<open>n\<close>; a stable sort by a key, greatest first
  (\<^verbatim>\<open>sort(key=..., reverse=True)\<close>); and a dictionary that keeps its keys in the order
  of their first insertion.
\<close>

definition py_take :: "int \<Rightarrow> 'a list \<Rightarrow> 'a list" where
  "py_take n xs = (if 0 \<le> n then take (nat n) xs else take (length xs - nat (- n)) xs)"

definition sort_desc :: "('a \<Rightarrow> real) \<Rightarrow> 'a list \<Rightarrow> 'a list" where
  "sort_desc key xs = sort_key (\<lambda>x. - key x) xs"

fun dict_set :: "'k \<Rightarrow> 'v \<Rightarrow> ('k \<times> 'v) list \<Rightarrow> ('k \<times> 'v) list" where
  "dict_set k v [] = [(k, v)]"
| "dict_set k v ((k', v') # kvs) = (if k' = k then (k, v) # kvs else (k', v') # dict_set k v kvs)"

subsection \<open>The methods of \<^verbatim>\<open>ConceptSearcher\<close>\<close>

definition get_vocab_weight :: "LookupConfig \<Rightarrow> string \<Rightarrow> string \<Rightarrow> real" where
  "get_vocab_weight cfg vocabulary domain =
     (let prefs = (case map_of (vocabulary_preferences cfg) domain of
                     Some p \<Rightarrow> p
                   | None \<Rightarrow> (case map_of (vocabulary_preferences cfg) ''default'' of
                                Some p \<Rightarrow> p | None \<Rightarrow> []))
      in case map_of prefs vocabulary of Some w \<Rightarrow> w | None \<Rightarrow> default_vocab_weight cfg)"

definition create_match ::
  "OMOPDatabase \<Rightarrow> concept_data \<Rightarrow> real \<Rightarrow> MatchType \<Rightarrow> ustring \<Rightarrow> ConceptMatch" where
  "create_match database concept_data conf mtype text =
     (let (status, sid, sname) =
            (if standard_concept concept_data = Some ''S'' then (ALREADY_STANDARD, None, None)
             else (case get_maps_to database (concept_id concept_data) of
                     Some maps_to \<Rightarrow> (MAPPED_TO_STANDARD,
                                      Some (maps_to_row.standard_concept_id maps_to),
                                      Some (maps_to_row.standard_concept_name maps_to))
                   | None \<Rightarrow> (NO_MAPPING_AVAILABLE, None, None)))
      in \<lparr>concept_id = concept_id concept_data,
          concept_name = concept_name concept_data,
          domain_id = domain_id concept_data,
          vocabulary_id = vocabulary_id concept_data,
          concept_class_id = concept_class_id concept_data,
          standard_concept = standard_concept concept_data,
          concept_code = concept_code concept_data,
          confidence = min conf 1,
          match_type = mtype,
          matched_text = text,
          resolution_status = status,
          standard_concept_id = sid,
          standard_concept_name = sname\<rparr>)"

text \<open>
  \<^verbatim>\<open>_select_best_match\<close>; \<^verbatim>\<open>scored[0]\<close> of an empty list raises.
\<close>

definition select_weight :: "LookupConfig \<Rightarrow> concept_data \<Rightarrow> real" where
  "select_weight cfg m =
     get_vocab_weight cfg (vocabulary_id m) (domain_id m)
       * (if standard_concept m = Some ''S'' then 105 / 100 else 1)
       * (if source_type m = Some ''name'' then 102 / 100 else 1)"

definition select_best_match :: "LookupConfig \<Rightarrow> concept_data list \<Rightarrow> error + concept_data" where
  "select_best_match cfg matches =
     (case matches of
        [m] \<Rightarrow> Inr m
      | _ \<Rightarrow> (case sort_desc fst (map (\<lambda>m. (select_weight cfg m, m)) matches) of
                [] \<Rightarrow> Inl IndexError
              | s # _ \<Rightarrow> Inr (snd s)))"

text \<open>
  \<^verbatim>\<open>process.extract(query, choices, scorer, limit, score_cutoff)\<close> of RapidFuzz: the
  choices that reach the cutoff with their scores and positions, best first, equal scores
  in the order of the choices, at most \<open>limit\<close> of them.
\<close>

definition process_extract ::
  "(ustring \<Rightarrow> ustring \<Rightarrow> real) \<Rightarrow> ustring \<Rightarrow> ustring list \<Rightarrow> nat \<Rightarrow> real \<Rightarrow> (ustring \<times> real \<times> nat) list" where
  "process_extract scorer q choices limit score_cutoff =
     take limit (sort_desc (\<lambda>m. fst (snd m))
       (filter (\<lambda>m. score_cutoff \<le> fst (snd m))
         (map (\<lambda>(idx, choice). (choice, scorer q choice, idx)) (enumerate 0 choices))))"

text \<open>
  \<^verbatim>\<open>c["search_text_normalized"] or c["search_text"]\<close>: both keys must be there.
  In \<^verbatim>\<open>_fuzzy_match\<close> the positions that \<open>process_extract\<close> returns are positions of the
  choices, of which there is one for each candidate, so \<^verbatim>\<open>candidates[idx]\<close> is in range
  (lemma \<open>process_extract_index\<close> below).
\<close>

definition candidate_text :: "concept_data \<Rightarrow> error + ustring" where
  "candidate_text c =
     (case search_text_normalized c of
        None \<Rightarrow> Inl (KeyError ''search_text_normalized'')
      | Some n \<Rightarrow> if n \<noteq> [] then Inr n
                  else (case search_text c of
                          None \<Rightarrow> Inl (KeyError ''search_text'')
                        | Some t \<Rightarrow> Inr t))"

fun candidate_texts :: "concept_data list \<Rightarrow> error + ustring list" where
  "candidate_texts [] = Inr []"
| "candidate_texts (c # cs) =
     (case candidate_text c of
        Inl e \<Rightarrow> Inl e
      | Inr t \<Rightarrow> (case candidate_texts cs of Inl e \<Rightarrow> Inl e | Inr ts \<Rightarrow> Inr (t # ts)))"

definition fuzzy_match ::
  "runtime \<Rightarrow> ConceptSearcher \<Rightarrow> ustring \<Rightarrow> ustring list \<Rightarrow> string option \<Rightarrow> error + scored list" where
  "fuzzy_match rt s nq tokens dfilter =
     (case get_candidates_by_token_overlap (execute_other rt) (db s) tokens dfilter 1
             (max_fuzzy_candidates (config s)) of
        Inl e \<Rightarrow> Inl e
      | Inr cands \<Rightarrow>
          if cands = [] then Inr []
          else (case candidate_texts cands of
                  Inl e \<Rightarrow> Inl e
                | Inr texts \<Rightarrow>
                    Inr (sort_desc score
                      (map (\<lambda>(match_text, sc, idx).
                              \<lparr>scored.concept = cands ! idx, score = sc, scored.matched_text = match_text\<rparr>)
                        (process_extract (WRatio rt) nq texts (min 50 (length cands))
                           (fuzzy_min_threshold (config s)))))))"


text \<open>
  \<^verbatim>\<open>_semantic_match\<close>: the neighbours that are concepts of the store and pass the
  domain filter.  An exception of the index is passed on as its text.
\<close>

definition semantic_match ::
  "(ustring \<Rightarrow> int \<Rightarrow> string + (int \<times> real) list) \<Rightarrow> OMOPDatabase \<Rightarrow> ustring \<Rightarrow> string option
     \<Rightarrow> int \<Rightarrow> string + scored list" where
  "semantic_match index database q dfilter k =
     (case index q k of
        Inl e \<Rightarrow> Inl e
      | Inr neighbours \<Rightarrow>
          Inr (concat (map (\<lambda>(cid, sc).
                 case get_concept_by_id database cid of
                   None \<Rightarrow> []
                 | Some c \<Rightarrow>
                     if (case dfilter of None \<Rightarrow> False | Some d \<Rightarrow> d \<noteq> [] \<and> domain_id c \<noteq> d)
                     then []
                     else [\<lparr>scored.concept = c, score = sc, scored.matched_text = concept_name c\<rparr>])
               neighbours)))"

text \<open>
  \<^verbatim>\<open>_merge_and_rank\<close>.  The first loop stores an entry for every fuzzy result under
  its concept id, a later result replacing an earlier one of the same id; the second
  loop writes the similarity into the entry of the id, or stores a new entry.
\<close>

definition add_fuzzy :: "(int \<times> candidate) list \<Rightarrow> scored \<Rightarrow> (int \<times> candidate) list" where
  "add_fuzzy d r =
     dict_set (concept_id (scored.concept r))
       \<lparr>candidate.concept = scored.concept r,
        fuzzy_score = score r / 100,
        semantic_score = 0,
        candidate.match_type =
          (if source_type (scored.concept r) = Some ''name'' then FUZZY_NAME else FUZZY_SYNONYM)\<rparr> d"

definition add_semantic :: "(int \<times> candidate) list \<Rightarrow> scored \<Rightarrow> (int \<times> candidate) list" where
  "add_semantic d r =
     (case map_of d (concept_id (scored.concept r)) of
        Some e \<Rightarrow> dict_set (concept_id (scored.concept r)) (e\<lparr>semantic_score := score r\<rparr>) d
      | None \<Rightarrow> dict_set (concept_id (scored.concept r))
                 \<lparr>candidate.concept = scored.concept r,
                  fuzzy_score = 0,
                  semantic_score = score r,
                  candidate.match_type = SEMANTIC\<rparr> d)"

definition candidates_by_id :: "scored list \<Rightarrow> scored list \<Rightarrow> (int \<times> candidate) list" where
  "candidates_by_id fuzzy_results semantic_results =
     foldl add_semantic (foldl add_fuzzy [] fuzzy_results) semantic_results"

definition base_score :: "candidate \<Rightarrow> real" where
  "base_score e =
     max (fuzzy_score e * (7 / 10) + semantic_score e * (3 / 10))
         (max (fuzzy_score e) (semantic_score e))"

definition combined_score :: "LookupConfig \<Rightarrow> candidate \<Rightarrow> real" where
  "combined_score cfg e =
     base_score e
       * get_vocab_weight cfg (vocabulary_id (candidate.concept e)) (domain_id (candidate.concept e))
       * (if source_type (candidate.concept e) = Some ''name'' then 1 else 98 / 100)
       * (if standard_concept (candidate.concept e) = Some ''S'' then 1 else 95 / 100)"

definition merge_and_rank ::
  "LookupConfig \<Rightarrow> scored list \<Rightarrow> scored list \<Rightarrow> string option \<Rightarrow> int \<Rightarrow> candidate list" where
  "merge_and_rank cfg fuzzy_results semantic_results dfilter top_k =
     py_take (top_k * 2)
       (sort_desc (combined_score cfg) (map snd (candidates_by_id fuzzy_results semantic_results)))"

subsection \<open>\<^verbatim>\<open>ConceptSearcher.search\<close>\<close>

text \<open>The return of the first tier, for a non-empty list of exact results.\<close>

definition exact_tier ::
  "ConceptSearcher \<Rightarrow> ustring \<Rightarrow> ustring \<Rightarrow> string option \<Rightarrow> concept_data list \<Rightarrow> error + LookupResult" where
  "exact_tier s q nq dfilter exact_results =
     (case select_best_match (config s) exact_results of
        Inl e \<Rightarrow> Inl e
      | Inr best \<Rightarrow>
          (case source_type best of
             None \<Rightarrow> Inl (KeyError ''source_type'')
           | Some st \<Rightarrow>
               (case search_text best of
                  None \<Rightarrow> Inl (KeyError ''search_text'')
                | Some txt \<Rightarrow>
                    Inr \<lparr>query = q, normalized_query = nq, domain_filter = dfilter,
                         success = True,
                         best_match = Some (create_match (db s) best 1
                            (if st = ''name'' then EXACT_NAME else EXACT_SYNONYM) txt),
                         candidates = [],
                         warnings = []\<rparr>)))"

text \<open>The return of the second tier, for a best fuzzy result of high confidence.\<close>

definition fuzzy_exit ::
  "ConceptSearcher \<Rightarrow> ustring \<Rightarrow> ustring \<Rightarrow> string option \<Rightarrow> scored \<Rightarrow> error + LookupResult" where
  "fuzzy_exit s q nq dfilter best_fuzzy =
     (case source_type (scored.concept best_fuzzy) of
        None \<Rightarrow> Inl (KeyError ''source_type'')
      | Some st \<Rightarrow>
          (case search_text (scored.concept best_fuzzy) of
             None \<Rightarrow> Inl (KeyError ''search_text'')
           | Some txt \<Rightarrow>
               Inr \<lparr>query = q, normalized_query = nq, domain_filter = dfilter,
                    success = True,
                    best_match = Some (create_match (db s) (scored.concept best_fuzzy)
                       (score best_fuzzy / 100)
                       (if st = ''name'' then FUZZY_NAME else FUZZY_SYNONYM) txt),
                    candidates = [],
                    warnings = []\<rparr>))"

text \<open>
  The third tier: the semantic results, the warnings, and the searcher, whose flag
  \<^verbatim>\<open>enable_semantic\<close> is switched off when the index cannot be imported.
\<close>

definition semantic_tier ::
  "runtime \<Rightarrow> ConceptSearcher \<Rightarrow> ustring \<Rightarrow> string option \<Rightarrow> int
     \<Rightarrow> (scored list \<times> warning list) \<times> ConceptSearcher" where
  "semantic_tier rt s nq dfilter top_k =
     (if enable_semantic s then
        (case semantic rt of
           Import_Error \<Rightarrow>
             (([], [Message ''Semantic search index not built'']), s\<lparr>enable_semantic := False\<rparr>)
         | Not_Available \<Rightarrow> (([], [Message ''Semantic search index not built'']), s)
         | Available index \<Rightarrow>
             (case semantic_match index (db s) nq dfilter (top_k * 2) of
                Inl e \<Rightarrow> (([], [Message (''Semantic search unavailable: '' @ e)]), s)
              | Inr rs \<Rightarrow> ((rs, []), s)))
      else (([], []), s))"

text \<open>The ranking and the return of the last tier.\<close>

definition fused_match :: "ConceptSearcher \<Rightarrow> candidate \<Rightarrow> ConceptMatch" where
  "fused_match s c =
     create_match (db s) (candidate.concept c) (combined_score (config s) c) (candidate.match_type c)
       (case search_text (candidate.concept c) of
          Some t \<Rightarrow> t
        | None \<Rightarrow> concept_name (candidate.concept c))"

definition fused_result ::
  "ConceptSearcher \<Rightarrow> ustring \<Rightarrow> ustring \<Rightarrow> string option \<Rightarrow> int \<Rightarrow> scored list \<Rightarrow> scored list
     \<Rightarrow> warning list \<Rightarrow> LookupResult" where
  "fused_result s q nq dfilter top_k fuzzy_results semantic_results ws =
     (case merge_and_rank (config s) fuzzy_results semantic_results dfilter top_k of
        [] \<Rightarrow> \<lparr>query = q, normalized_query = nq, domain_filter = dfilter,
                success = False, best_match = None, candidates = [],
                warnings = ws @ [Message ''No matches found'']\<rparr>
      | c # cs \<Rightarrow>
          (let matches = map (fused_match s) (c # cs);
               best = fused_match s c;
               ok = (confidence_threshold (config s) \<le> confidence best)
           in \<lparr>query = q, normalized_query = nq, domain_filter = dfilter,
                success = ok,
                best_match = Some best,
                candidates = (if 1 < length matches then drop 1 (py_take top_k matches) else []),
                warnings = (if \<not> ok
                            then ws @ [Below_threshold (confidence best) (confidence_threshold (config s))]
                            else ws)\<rparr>))"

definition search ::
  "runtime \<Rightarrow> ConceptSearcher \<Rightarrow> ustring \<Rightarrow> string option \<Rightarrow> int
     \<Rightarrow> (error + LookupResult) \<times> ConceptSearcher" where
  "search rt s q dfilter top_k =
     (let nq = normalize_text (tables rt) q;
          tokens = tokenize (tables rt) nq;
          exact_results = exact_match (db s) nq dfilter 10
      in if exact_results \<noteq> [] then (exact_tier s q nq dfilter exact_results, s)
         else (case fuzzy_match rt s nq tokens dfilter of
                 Inl e \<Rightarrow> (Inl e, s)
               | Inr fuzzy_results \<Rightarrow>
                   if fuzzy_results \<noteq> []
                      \<and> fuzzy_high_confidence (config s) \<le> score (hd fuzzy_results)
                   then (fuzzy_exit s q nq dfilter (hd fuzzy_results), s)
                   else (case semantic_tier rt s nq dfilter top_k of
                           ((semantic_results, ws), s') \<Rightarrow>
                             (Inr (fused_result s' q nq dfilter top_k fuzzy_results semantic_results ws),
                              s'))))"

section \<open>The package interface: \<^verbatim>\<open>__init__.py\<close>\<close>

text \<open>
  The module keeps one searcher for the process (\<^verbatim>\<open>_searcher\<close>): the first call of
  \<^verbatim>\<open>get_searcher\<close> creates it from its arguments, every later call returns it as it is.
  An argument that a call leaves out is \<open>None\<close>, and the function puts its default in.
\<close>

record globals =
  searcher_instance :: "ConceptSearcher option"

definition get_searcher :: "runtime \<Rightarrow> globals \<Rightarrow> LookupConfig \<Rightarrow> bool \<Rightarrow> ConceptSearcher \<times> globals" where
  "get_searcher rt g cfg es =
     (case searcher_instance g of
        None \<Rightarrow> (let s = \<lparr>config = cfg, db = db_instance rt, enable_semantic = es\<rparr>
                 in (s, g\<lparr>searcher_instance := Some s\<rparr>))
      | Some s \<Rightarrow> (s, g))"

definition lookup ::
  "runtime \<Rightarrow> globals \<Rightarrow> ustring \<Rightarrow> string option \<Rightarrow> int option \<Rightarrow> bool option \<Rightarrow> LookupConfig option
     \<Rightarrow> (error + LookupResult) \<times> globals" where
  "lookup rt g q domain top_k es cfg =
     (case get_searcher rt g (case cfg of None \<Rightarrow> DEFAULT_CONFIG | Some c \<Rightarrow> c)
             (case es of None \<Rightarrow> False | Some b \<Rightarrow> b) of
        (s, g') \<Rightarrow>
          (case search rt s q domain (case top_k of None \<Rightarrow> 10 | Some k \<Rightarrow> k) of
             (r, s') \<Rightarrow> (r, g'\<lparr>searcher_instance := Some s'\<rparr>)))"





section \<open>Notions of the specification\<close>

text \<open>
  The matches that a result returns, best match first; and the canonicalization invariant
  of one match against the concept table.
\<close>

definition matches_of :: "LookupResult \<Rightarrow> ConceptMatch list" where
  "matches_of r = (case best_match r of None \<Rightarrow> [] | Some b \<Rightarrow> [b]) @ candidates r"

definition canonical :: "OMOPDatabase \<Rightarrow> ConceptMatch \<Rightarrow> bool" where
  "canonical database m =
     (case resolution_status m of
        ALREADY_STANDARD \<Rightarrow> get_analytics_concept_id m = Some (concept_id m)
      | MAPPED_TO_STANDARD \<Rightarrow>
          (case standard_concept_id m of
             None \<Rightarrow> False
           | Some sid \<Rightarrow> get_analytics_concept_id m = Some sid
               \<and> list_ex (\<lambda>c. concept_id c = sid \<and> standard_concept c = Some ''S'') (OMOPDatabase.concept database))
      | NO_MAPPING_AVAILABLE \<Rightarrow> get_analytics_concept_id m = None)"


section \<open>A small store for trying the functions\<close>

definition demo_concepts :: "concept_row list" where
  "demo_concepts =
     [\<lparr>concept_id = 1, concept_name = ustr ''Myocardial infarction'', domain_id = ''Condition'',
       vocabulary_id = ''SNOMED'', concept_class_id = ''Clinical Finding'',
       standard_concept = Some ''S'', concept_code = Some ''22298006'', invalid_reason = None\<rparr>,
      \<lparr>concept_id = 2, concept_name = ustr ''Heart attack'', domain_id = ''Condition'',
       vocabulary_id = ''ICD10CM'', concept_class_id = ''4-char billing code'',
       standard_concept = None, concept_code = Some ''I21.9'', invalid_reason = None\<rparr>,
      \<lparr>concept_id = 3, concept_name = ustr ''Aspirin'', domain_id = ''Drug'',
       vocabulary_id = ''RxNorm'', concept_class_id = ''Ingredient'',
       standard_concept = Some ''S'', concept_code = Some ''1191'', invalid_reason = None\<rparr>]"

definition demo_synonyms :: "synonym_row list" where
  "demo_synonyms =
     [\<lparr>synonym_row.concept_id = 1, concept_synonym_name = ustr ''Cardiac infarction'', language_concept_id = 4180186\<rparr>]"

definition demo_relationships :: "relationship_row list" where
  "demo_relationships =
     [\<lparr>concept_id_1 = 2, concept_id_2 = 1, relationship_id = ''Maps to'', relationship_row.invalid_reason = None\<rparr>,
      \<lparr>concept_id_1 = 1, concept_id_2 = 2, relationship_id = ''Mapped from'', relationship_row.invalid_reason = None\<rparr>]"

definition demo_db :: OMOPDatabase where
  "demo_db = initialize (\<lambda>c. c) demo_concepts demo_synonyms demo_relationships"

definition demo_runtime :: runtime where
  "demo_runtime = \<lparr>tables = ascii_only, WRatio = (\<lambda>q t. 80), semantic = Not_Available,
                     db_instance = demo_db,
      execute_other = (\<lambda>tokens text n. Inl (DatabaseError ''Parser Error''))\<rparr>"

definition demo_searcher :: ConceptSearcher where
  "demo_searcher = \<lparr>config = DEFAULT_CONFIG, db = demo_db, enable_semantic = False\<rparr>"


definition demo_match :: ConceptMatch where
  "demo_match =
     \<lparr>concept_id = 2, concept_name = ustr ''Heart attack'', domain_id = ''Condition'',
      vocabulary_id = ''ICD10CM'', concept_class_id = ''4-char billing code'',
      standard_concept = None, concept_code = Some ''I21.9'',
      confidence = 1, match_type = EXACT_NAME, matched_text = ustr ''Heart attack'',
      resolution_status = MAPPED_TO_STANDARD, standard_concept_id = Some 1,
      standard_concept_name = Some (ustr ''Myocardial infarction'')\<rparr>"

definition demo_result :: LookupResult where
  "demo_result =
     \<lparr>query = ustr ''Heart Attack'', normalized_query = ustr ''heart attack'',
      domain_filter = None, success = True, best_match = Some demo_match,
      candidates = [], warnings = []\<rparr>"

definition demo_row :: search_row where
  "demo_row =
     \<lparr>concept_id = 2, concept_name = ustr ''Heart attack'', domain_id = ''Condition'',
      vocabulary_id = ''ICD10CM'', concept_class_id = ''4-char billing code'',
      standard_concept = None, concept_code = Some ''I21.9'', invalid_reason = None,
      search_row.search_text = ustr ''Heart attack'', search_row.source_type = ''name'',
      search_row.search_text_normalized = ustr ''heart attack''\<rparr>"

definition meets_threshold :: "LookupConfig \<Rightarrow> LookupResult \<Rightarrow> bool" where
  "meets_threshold cfg r =
     (case best_match r of None \<Rightarrow> False | Some b \<Rightarrow> confidence_threshold cfg \<le> confidence b)"

definition early_exit :: "runtime \<Rightarrow> ConceptSearcher \<Rightarrow> ustring \<Rightarrow> string option \<Rightarrow> bool" where
  "early_exit rt s q dfilter =
     (let nq = normalize_text (tables rt) q
      in exact_match (db s) nq dfilter 10 \<noteq> []
         \<or> (case fuzzy_match rt s nq (tokenize (tables rt) nq) dfilter of
               Inl e \<Rightarrow> False
             | Inr fz \<Rightarrow> fz \<noteq> [] \<and> fuzzy_high_confidence (config s) \<le> score (hd fz)))"

definition hit_runtime :: runtime where
  "hit_runtime = \<lparr>tables = ascii_only, WRatio = (\<lambda>q t. 96), semantic = Not_Available,
                    db_instance = demo_db,
      execute_other = (\<lambda>tokens text n. Inl (DatabaseError ''Parser Error''))\<rparr>"

definition strict_searcher :: ConceptSearcher where
  "strict_searcher = \<lparr>config = DEFAULT_CONFIG\<lparr>confidence_threshold := 97 / 100\<rparr>, db = demo_db,
                        enable_semantic = False\<rparr>"

definition strict_result :: LookupResult where
  "strict_result =
     \<lparr>query = ustr ''heart'', normalized_query = ustr ''heart'',
      domain_filter = None, success = True,
      best_match = Some (demo_match\<lparr>confidence := 96 / 100, match_type := FUZZY_NAME\<rparr>),
      candidates = [], warnings = []\<rparr>"

definition none_result :: LookupResult where
  "none_result =
     \<lparr>query = ustr ''zzz'', normalized_query = ustr ''zzz'', domain_filter = None,
      success = False, best_match = None, candidates = [],
      warnings = [Message ''No matches found'']\<rparr>"

definition injection_filter :: string where
  "injection_filter =
     ''Drug'' @ [CHR 0x27] @ '' OR '' @ [CHR 0x27] @ ''1'' @ [CHR 0x27] @ ''='' @ [CHR 0x27] @ ''1''"

definition overlap_runtime :: runtime where
  "overlap_runtime =
     \<lparr>tables = ascii_only,
      WRatio = (\<lambda>q t. if like (37 # q @ [37]) t then 96 else 0),
      semantic = Not_Available,
      db_instance = demo_db,
      execute_other = (\<lambda>tokens text n. Inl (DatabaseError ''Parser Error''))\<rparr>"

definition injected_match :: ConceptMatch where
  "injected_match = demo_match\<lparr>confidence := 96 / 100, match_type := FUZZY_NAME\<rparr>"

definition injected_result :: LookupResult where
  "injected_result =
     \<lparr>query = ustr ''heart'', normalized_query = ustr ''heart'',
      domain_filter = Some injection_filter, success = True,
      best_match = Some injected_match, candidates = [], warnings = []\<rparr>"

definition drug_result :: LookupResult where
  "drug_result =
     \<lparr>query = ustr ''heart'', normalized_query = ustr ''heart'',
      domain_filter = Some ''Drug'', success = False,
      best_match = None, candidates = [], warnings = [Message ''No matches found'']\<rparr>"

definition weights_nonneg :: "LookupConfig \<Rightarrow> bool" where
  "weights_nonneg cfg =
     (0 \<le> default_vocab_weight cfg
      \<and> list_all (\<lambda>p. list_all (\<lambda>w. 0 \<le> snd w) (snd p)) (vocabulary_preferences cfg))"

definition negative_runtime :: runtime where
  "negative_runtime = \<lparr>tables = ascii_only, WRatio = (\<lambda>q t. 80),
                         semantic = Available (\<lambda>q k. Inr [(3, - 1 / 2)]),
                         db_instance = demo_db,
      execute_other = (\<lambda>tokens text n. Inl (DatabaseError ''Parser Error''))\<rparr>"

definition semantic_searcher :: ConceptSearcher where
  "semantic_searcher = \<lparr>config = DEFAULT_CONFIG, db = demo_db, enable_semantic = True\<rparr>"

definition negative_match :: ConceptMatch where
  "negative_match =
     \<lparr>concept_id = 3, concept_name = ustr ''Aspirin'', domain_id = ''Drug'',
      vocabulary_id = ''RxNorm'', concept_class_id = ''Ingredient'',
      standard_concept = Some ''S'', concept_code = Some ''1191'',
      confidence = 0, match_type = SEMANTIC, matched_text = ustr ''Aspirin'',
      resolution_status = ALREADY_STANDARD, standard_concept_id = None,
      standard_concept_name = None\<rparr>"

definition negative_result :: LookupResult where
  "negative_result =
     \<lparr>query = ustr ''zzz'', normalized_query = ustr ''zzz'', domain_filter = None,
      success = False, best_match = Some negative_match, candidates = [],
      warnings = [Below_threshold 0 (75 / 100)]\<rparr>"

definition similar_runtime :: runtime where
  "similar_runtime =
     \<lparr>tables = ascii_only, WRatio = (\<lambda>q t. 80),
      semantic = Available (\<lambda>q k. Inr [(3, 1 / 2)]),
      db_instance = demo_db,
      execute_other = (\<lambda>tokens text n. Inl (DatabaseError ''Parser Error''))\<rparr>"

definition negative_weight_searcher :: ConceptSearcher where
  "negative_weight_searcher =
     \<lparr>config = DEFAULT_CONFIG\<lparr>vocabulary_preferences := [(''Drug'', [(''RxNorm'', - 1)])]\<rparr>,
      db = demo_db, enable_semantic = True\<rparr>"

definition below_zero_match :: ConceptMatch where
  "below_zero_match = negative_match\<lparr>confidence := - 49 / 100\<rparr>"

definition below_zero_result :: LookupResult where
  "below_zero_result =
     \<lparr>query = ustr ''zzz'', normalized_query = ustr ''zzz'', domain_filter = None,
      success = False, best_match = Some below_zero_match, candidates = [],
      warnings = [Below_threshold (- 49 / 100) (75 / 100)]\<rparr>"

definition last_result :: "int \<Rightarrow> scored list \<Rightarrow> scored option" where
  "last_result cid rs =
     (case filter (\<lambda>r. concept_id (scored.concept r) = cid) rs of
        [] \<Rightarrow> None
      | x # xs \<Rightarrow> Some (last (x # xs)))"

definition spec_confidence :: "LookupConfig \<Rightarrow> scored list \<Rightarrow> scored list \<Rightarrow> concept_data \<Rightarrow> real" where
  "spec_confidence cfg fuzzy_results semantic_results cd =
     (let fuzzy_norm = (case last_result (concept_id cd) fuzzy_results of
                          None \<Rightarrow> 0 | Some r \<Rightarrow> score r / 100);
          semantic_norm = (case last_result (concept_id cd) semantic_results of
                             None \<Rightarrow> 0 | Some r \<Rightarrow> score r);
          base = max (7 / 10 * fuzzy_norm + 3 / 10 * semantic_norm) (max fuzzy_norm semantic_norm)
      in min 1 (base
           * get_vocab_weight cfg (vocabulary_id cd) (domain_id cd)
           * (if source_type cd = Some ''name'' then 1 else 98 / 100)
           * (if standard_concept cd = Some ''S'' then 1 else 95 / 100)))"

definition entry_ok :: "(int \<times> candidate) list \<Rightarrow> scored list \<Rightarrow> int \<Rightarrow> candidate \<Rightarrow> bool" where
  "entry_ok d sem k e =
     (concept_id (candidate.concept e) = k
      \<and> fuzzy_score e = (case map_of d k of None \<Rightarrow> 0 | Some e0 \<Rightarrow> fuzzy_score e0)
      \<and> semantic_score e = (case last_result k sem of
                              None \<Rightarrow> (case map_of d k of None \<Rightarrow> 0 | Some e0 \<Rightarrow> semantic_score e0)
                            | Some r \<Rightarrow> score r))"

definition demo_candidate :: concept_data where
  "demo_candidate =
     \<lparr>concept_id = 2, concept_name = ustr ''Heart attack'', domain_id = ''Condition'',
      vocabulary_id = ''ICD10CM'', concept_class_id = ''4-char billing code'',
      standard_concept = None, concept_code = Some ''I21.9'',
      search_text = Some (ustr ''Heart attack''), source_type = Some ''name'',
      search_text_normalized = Some (ustr ''heart attack'')\<rparr>"

definition demo_fuzzy :: "scored list" where
  "demo_fuzzy =
     [\<lparr>scored.concept = demo_candidate, score = 80, scored.matched_text = ustr ''heart attack''\<rparr>]"

definition demo_semantic :: "scored list" where
  "demo_semantic =
     [\<lparr>scored.concept = demo_candidate\<lparr>search_text := None, source_type := None,
                                         search_text_normalized := None\<rparr>,
       score = 9 / 10, scored.matched_text = ustr ''Heart attack''\<rparr>]"

definition fused_demo_match :: ConceptMatch where
  "fused_demo_match = demo_match\<lparr>confidence := 684 / 1000, match_type := FUZZY_NAME\<rparr>"

definition fresh_process :: globals where
  "fresh_process = \<lparr>searcher_instance = None\<rparr>"



section \<open>Properties of the normal form\<close>

lemma fixed_charD:
  assumes "fixed_char u c"
  shows "py_decomposition u c = [c]" and "py_combining u c = 0"
    and "py_lower_char u l c r = [c]" and "is_word u c \<or> py_isspace u c"
  using assms
  by (auto simp: fixed_char_def word_fixed_def py_decomposition_def py_combining_def
      py_lower_char_def py_isspace_def)

lemma canonical_insert_starter: "cc c = 0 \<Longrightarrow> canonical_insert cc c acc = c # acc"
  by (cases acc) simp_all

lemma foldl_canonical_insert_starters:
  "\<forall>c \<in> set s. cc c = 0 \<Longrightarrow> foldl (\<lambda>acc c. canonical_insert cc c acc) acc s = rev s @ acc"
  by (induction s arbitrary: acc) (simp_all add: canonical_insert_starter)

lemma canonical_order_starters: "\<forall>c \<in> set s. cc c = 0 \<Longrightarrow> canonical_order cc s = s"
  by (simp add: canonical_order_def foldl_canonical_insert_starters)

lemma set_canonical_insert: "set (canonical_insert cc c acc) = insert c (set acc)"
  by (induction acc) auto

lemma set_foldl_canonical_insert:
  "set (foldl (\<lambda>acc c. canonical_insert cc c acc) acc s) = set s \<union> set acc"
  by (induction s arbitrary: acc) (auto simp: set_canonical_insert)

lemma set_canonical_order: "set (canonical_order cc s) = set s"
  by (simp add: canonical_order_def set_foldl_canonical_insert)

lemma concat_map_singletons: "\<forall>c \<in> set s. f c = [c] \<Longrightarrow> concat (map f s) = s"
  by (induction s) simp_all

lemma nfkd_fixed: "\<forall>c \<in> set s. fixed_char u c \<Longrightarrow> nfkd u s = s"
  by (simp add: nfkd_def fixed_charD concat_map_singletons canonical_order_starters)

lemma lower_from_fixed: "\<forall>c \<in> set s. fixed_char u c \<Longrightarrow> lower_from u l s = s"
  by (induction s arbitrary: l) (simp_all add: fixed_charD)

lemma strip_combining_fixed: "\<forall>c \<in> set s. fixed_char u c \<Longrightarrow> strip_combining u s = s"
  by (simp add: strip_combining_def fixed_charD)

lemma sub_non_word_fixed: "\<forall>c \<in> set s. fixed_char u c \<Longrightarrow> sub_non_word u s = s"
proof -
  assume a: "\<forall>c \<in> set s. fixed_char u c"
  have "map (\<lambda>c. if is_word u c \<or> py_isspace u c then c else 32) s = map (\<lambda>c. c) s"
    by (rule map_cong) (use a fixed_charD(4) in auto)
  then show ?thesis by (simp add: sub_non_word_def)
qed

lemma set_lower_from:
  "e \<in> set (lower_from u l s) \<Longrightarrow> \<exists>d \<in> set s. \<exists>l' r'. e \<in> set (py_lower_char u l' d r')"
proof (induction s arbitrary: l)
  case Nil
  then show ?case by simp
next
  case (Cons c s)
  from Cons.prems have "e \<in> set (py_lower_char u l c s) \<or> e \<in> set (lower_from u (l @ [c]) s)"
    by simp
  then show ?case
  proof
    assume "e \<in> set (py_lower_char u l c s)"
    then show ?thesis by auto
  next
    assume "e \<in> set (lower_from u (l @ [c]) s)"
    from Cons.IH [OF this] show ?thesis by auto
  qed
qed

lemma set_nfkd: "d \<in> set (nfkd u s) \<Longrightarrow> \<exists>c. d \<in> set (py_decomposition u c)"
  by (auto simp: nfkd_def set_canonical_order)

lemma pipeline_chars:
  assumes ok: "tables_ok u"
    and e: "e \<in> set (sub_non_word u (strip_combining u (py_lower u (nfkd u x))))"
  shows "py_isspace u e \<or> word_fixed u e"
proof -
  from e obtain e0 where e0: "e0 \<in> set (strip_combining u (py_lower u (nfkd u x)))"
    and e_def: "e = (if is_word u e0 \<or> py_isspace u e0 then e0 else 32)"
    by (auto simp: sub_non_word_def)
  show ?thesis
  proof (cases "is_word u e0")
    case True
    with e_def have ee: "e = e0" by simp
    from e0 have comb: "py_combining u e0 = 0" and low: "e0 \<in> set (lower_from u [] (nfkd u x))"
      by (auto simp: strip_combining_def py_lower_def)
    from set_lower_from [OF low] obtain d l' r' where d: "d \<in> set (nfkd u x)"
      and el: "e0 \<in> set (py_lower_char u l' d r')" by blast
    from set_nfkd [OF d] obtain c where c: "d \<in> set (py_decomposition u c)" ..
    from ok c el comb True
    have "py_decomposition u e0 = [e0] \<and> (\<forall>l' r'. py_lower_char u l' e0 r' = [e0]) \<and> \<not> py_isspace u e0"
      unfolding tables_ok_def by blast
    with comb True ee show ?thesis by (simp add: word_fixed_def)
  next
    case False
    with e_def have "py_isspace u e" by (auto simp: py_isspace_def)
    then show ?thesis ..
  qed
qed

lemma split_ws_tokens:
  "t \<in> set (split_ws sp cur s) \<Longrightarrow> \<forall>c \<in> set cur. \<not> sp c \<Longrightarrow>
     t \<noteq> [] \<and> (\<forall>c \<in> set t. (c \<in> set cur \<or> c \<in> set s) \<and> \<not> sp c)"
proof (induction sp cur s rule: split_ws.induct)
  case (1 sp cur)
  then show ?case by (simp split: if_splits)
next
  case (2 sp cur c cs)
  show ?case
  proof (cases "sp c")
    case False
    with "2.prems" have "t \<in> set (split_ws sp (cur @ [c]) cs)" and "\<forall>a \<in> set (cur @ [c]). \<not> sp a"
      by simp_all
    from "2.IH"(3) [OF False this] show ?thesis by auto
  next
    case True
    show ?thesis
    proof (cases "cur = []")
      case Nil: True
      with True "2.prems" have "t \<in> set (split_ws sp [] cs)" by simp
      from "2.IH"(1) [OF True Nil this] show ?thesis by auto
    next
      case False
      with True "2.prems" have "t = cur \<or> t \<in> set (split_ws sp [] cs)" by simp
      then show ?thesis
      proof
        assume "t = cur"
        with False "2.prems"(2) show ?thesis by simp
      next
        assume "t \<in> set (split_ws sp [] cs)"
        from "2.IH"(2) [OF True False this] show ?thesis by auto
      qed
    qed
  qed
qed

lemma split_ws_append_token:
  "\<forall>c \<in> set t. \<not> sp c \<Longrightarrow> split_ws sp cur (t @ s) = split_ws sp (cur @ t) s"
  by (induction t arbitrary: cur) simp_all

lemma split_ws_join:
  "\<forall>t \<in> set ts. t \<noteq> [] \<and> (\<forall>c \<in> set t. \<not> sp c) \<Longrightarrow> sp 32 \<Longrightarrow> ts \<noteq> [] \<Longrightarrow>
     split_ws sp [] (join_space ts) = ts"
proof (induction ts rule: join_space.induct)
  case 1
  then show ?case by simp
next
  case (2 t)
  then have "split_ws sp [] (t @ []) = split_ws sp ([] @ t) []"
    by (intro split_ws_append_token) auto
  with 2 show ?case by simp
next
  case (3 t t' ts)
  then have "split_ws sp [] (t @ 32 # join_space (t' # ts)) = split_ws sp ([] @ t) (32 # join_space (t' # ts))"
    by (intro split_ws_append_token) auto
  with 3 show ?case by simp
qed

lemma set_join_space: "c \<in> set (join_space ts) \<Longrightarrow> c = 32 \<or> (\<exists>t \<in> set ts. c \<in> set t)"
  by (induction ts rule: join_space.induct) auto

lemma join_space_Nil: "join_space ts = [] \<Longrightarrow> \<forall>t \<in> set ts. t \<noteq> [] \<Longrightarrow> ts = []"
  by (induction ts rule: join_space.induct) auto

lemma isspace_32: "py_isspace u 32"
  by (simp add: py_isspace_def)

lemma ascii_only_simps:
  "py_decomposition ascii_only c = [c]"
  "py_combining ascii_only c = 0"
  "py_lower_char ascii_only l c r = (if 65 \<le> c \<and> c \<le> 90 then [c + 32] else [c])"
  "is_word ascii_only c = (c = 95 \<or> (48 \<le> c \<and> c \<le> 57) \<or> (65 \<le> c \<and> c \<le> 90) \<or> (97 \<le> c \<and> c \<le> 122))"
  "py_isspace ascii_only c = ((9 \<le> c \<and> c \<le> 13) \<or> (28 \<le> c \<and> c \<le> 32))"
  by (auto simp: ascii_only_def py_decomposition_def py_combining_def py_lower_char_def
      is_word_def py_isalnum_def py_isspace_def)

lemma tables_ok_ascii_only: "tables_ok ascii_only"
  unfolding tables_ok_def ascii_only_simps
  by (simp split: if_splits)

text \<open>
  Claim C5: text normalization is idempotent: normalizing a normalized text returns it
  unchanged, for every input string, over every character table that meets the stability
  condition \<open>tables_ok\<close>.
\<close>

theorem normalize_text_idempotent:
  assumes ok: "tables_ok u"
  shows "normalize_text u (normalize_text u x) = normalize_text u x"
proof (cases "x = []")
  case True
  then show ?thesis by (simp add: normalize_text_def)
next
  case False
  define z where "z = sub_non_word u (strip_combining u (py_lower u (nfkd u x)))"
  define ts where "ts = py_split u z"
  have y: "normalize_text u x = join_space ts"
    using False by (simp add: normalize_text_def ts_def z_def)
  have tok: "t \<noteq> [] \<and> (\<forall>c \<in> set t. word_fixed u c \<and> \<not> py_isspace u c)" if "t \<in> set ts" for t
  proof -
    from that have "t \<in> set (split_ws (py_isspace u) [] z)" by (simp add: ts_def py_split_def)
    from split_ws_tokens [OF this] have t: "t \<noteq> []" "\<forall>c \<in> set t. c \<in> set z \<and> \<not> py_isspace u c"
      by auto
    moreover have "word_fixed u c" if "c \<in> set t" for c
      using pipeline_chars [OF ok, of c x] t(2) that by (auto simp: z_def)
    ultimately show ?thesis by blast
  qed
  show ?thesis
  proof (cases "ts = []")
    case True
    with y show ?thesis by (simp add: normalize_text_def)
  next
    case nonempty: False
    have fixed: "\<forall>c \<in> set (join_space ts). fixed_char u c"
      using set_join_space tok by (fastforce simp: fixed_char_def)
    have ne: "join_space ts \<noteq> []"
      using join_space_Nil [of ts] tok nonempty by blast
    have "py_split u (join_space ts) = ts"
      unfolding py_split_def using tok nonempty by (intro split_ws_join) (auto simp: isspace_32)
    with fixed ne have "normalize_text u (join_space ts) = join_space ts"
      by (simp add: normalize_text_def nfkd_fixed py_lower_def lower_from_fixed
          strip_combining_fixed sub_non_word_fixed)
    then show ?thesis by (simp only: y)
  qed
qed

theorem normalize_text_idempotent_witness:
  "tables_ok ascii_only \<and>
   normalize_text ascii_only (normalize_text ascii_only (ustr ''Heart-Attack (MI) ''))
     = normalize_text ascii_only (ustr ''Heart-Attack (MI) '') \<and>
   normalize_text ascii_only (ustr ''Heart-Attack (MI) '') = ustr ''heart attack mi''"
proof -
  have "normalize_text ascii_only (ustr ''Heart-Attack (MI) '') = ustr ''heart attack mi''"
    by code_simp
  with normalize_text_idempotent [OF tables_ok_ascii_only, of "ustr ''Heart-Attack (MI) ''"]
    tables_ok_ascii_only
  show ?thesis by simp
qed


section \<open>Where the matches of a result come from\<close>

lemma create_maps_to_lookup_target:
  "m \<in> set (create_maps_to_lookup concepts relationships) \<Longrightarrow>
     \<exists>c \<in> set concepts. concept_id c = maps_to_row.standard_concept_id m \<and> standard_concept c = Some ''S''"
  by (auto simp: create_maps_to_lookup_def)

lemma get_maps_to_member: "get_maps_to database cid = Some m \<Longrightarrow> m \<in> set (maps_to_lookup database)"
proof -
  assume a: "get_maps_to database cid = Some m"
  then obtain ms where "filter (\<lambda>m. source_concept_id m = cid) (maps_to_lookup database) = m # ms"
    by (auto simp: get_maps_to_def split: list.splits)
  then have "m \<in> set (filter (\<lambda>m. source_concept_id m = cid) (maps_to_lookup database))" by simp
  then show ?thesis by simp
qed

lemma create_match_canonical:
  assumes "maps_to_lookup database = create_maps_to_lookup (OMOPDatabase.concept database) (concept_relationship database)"
  shows "canonical database (create_match database cd conf mt txt)"
proof (cases "standard_concept cd = Some ''S''")
  case True
  then show ?thesis
    by (simp add: canonical_def create_match_def get_analytics_concept_id_def)
next
  case False
  show ?thesis
  proof (cases "get_maps_to database (concept_id cd)")
    case None
    with False show ?thesis
      by (simp add: canonical_def create_match_def get_analytics_concept_id_def)
  next
    case (Some m)
    from get_maps_to_member [OF Some] assms
    have "m \<in> set (create_maps_to_lookup (OMOPDatabase.concept database) (concept_relationship database))" by simp
    from create_maps_to_lookup_target [OF this]
    have "list_ex (\<lambda>c. concept_id c = maps_to_row.standard_concept_id m \<and> standard_concept c = Some ''S'')
            (OMOPDatabase.concept database)"
      by (simp add: list_ex_iff)
    with False Some show ?thesis
      by (simp add: canonical_def create_match_def get_analytics_concept_id_def)
  qed
qed

lemma set_py_take: "set (py_take n xs) \<subseteq> set xs"
  by (auto simp: py_take_def dest: in_set_takeD)

lemma set_sort_desc: "set (sort_desc key xs) = set xs"
  by (simp add: sort_desc_def)

lemma length_sort_desc: "length (sort_desc key xs) = length xs"
  by (simp add: sort_desc_def)

lemma select_best_match_member: "select_best_match cfg ms = Inr b \<Longrightarrow> b \<in> set ms"
proof -
  assume a: "select_best_match cfg ms = Inr b"
  show ?thesis
  proof (cases "\<exists>m. ms = [m]")
    case True
    with a show ?thesis by (auto simp: select_best_match_def)
  next
    case False
    then have "select_best_match cfg ms =
        (case sort_desc fst (map (\<lambda>m. (select_weight cfg m, m)) ms) of
           [] \<Rightarrow> Inl IndexError | s # _ \<Rightarrow> Inr (snd s))"
      by (auto simp: select_best_match_def split: list.splits)
    with a obtain p ps where p: "sort_desc fst (map (\<lambda>m. (select_weight cfg m, m)) ms) = p # ps"
      and b: "b = snd p"
      by (auto split: list.splits)
    from p have "p \<in> set (sort_desc fst (map (\<lambda>m. (select_weight cfg m, m)) ms))" by simp
    then have "p \<in> set (map (\<lambda>m. (select_weight cfg m, m)) ms)" by (simp only: set_sort_desc)
    with b show ?thesis by auto
  qed
qed

lemma select_best_match_nonempty: "ms \<noteq> [] \<Longrightarrow> \<exists>b. select_best_match cfg ms = Inr b"
proof -
  assume ne: "ms \<noteq> []"
  show ?thesis
  proof (cases "\<exists>m. ms = [m]")
    case True
    then show ?thesis by (auto simp: select_best_match_def)
  next
    case False
    then have eq: "select_best_match cfg ms =
        (case sort_desc fst (map (\<lambda>m. (select_weight cfg m, m)) ms) of
           [] \<Rightarrow> Inl IndexError | s # _ \<Rightarrow> Inr (snd s))"
      by (auto simp: select_best_match_def split: list.splits)
    from ne have "length (sort_desc fst (map (\<lambda>m. (select_weight cfg m, m)) ms)) \<noteq> 0"
      by (simp add: length_sort_desc)
    then obtain p ps where "sort_desc fst (map (\<lambda>m. (select_weight cfg m, m)) ms) = p # ps"
      by (cases "sort_desc fst (map (\<lambda>m. (select_weight cfg m, m)) ms)") auto
    with eq show ?thesis by simp
  qed
qed

lemma semantic_tier_searcher:
  "semantic_tier rt s nq df k = ((sem, ws), s') \<Longrightarrow> config s' = config s \<and> db s' = db s"
  by (auto simp: semantic_tier_def split: if_splits semantic_backend.splits sum.splits)

lemma exact_tier_result:
  assumes "exact_tier s q nq df ex = Inr r"
  shows "\<exists>best \<in> set ex. \<exists>mt txt.
           r = \<lparr>query = q, normalized_query = nq, domain_filter = df, success = True,
                best_match = Some (create_match (db s) best 1 mt txt), candidates = [], warnings = []\<rparr>"
proof -
  from assms obtain best where b: "select_best_match (config s) ex = Inr best"
    by (auto simp: exact_tier_def split: sum.splits)
  from select_best_match_member [OF b] have "best \<in> set ex" .
  with assms b show ?thesis
    by (auto simp: exact_tier_def split: option.splits)
qed

lemma fuzzy_exit_result:
  assumes "fuzzy_exit s q nq df bf = Inr r"
  shows "\<exists>mt txt.
           r = \<lparr>query = q, normalized_query = nq, domain_filter = df, success = True,
                best_match = Some (create_match (db s) (scored.concept bf) (score bf / 100) mt txt),
                candidates = [], warnings = []\<rparr>"
  using assms by (auto simp: fuzzy_exit_def split: option.splits)

lemma fused_result_matches:
  "m \<in> set (matches_of (fused_result s q nq df k fz sem ws)) \<Longrightarrow>
     \<exists>c \<in> set (merge_and_rank (config s) fz sem df k). m = fused_match s c"
proof -
  assume m: "m \<in> set (matches_of (fused_result s q nq df k fz sem ws))"
  show ?thesis
  proof (cases "merge_and_rank (config s) fz sem df k")
    case Nil
    with m show ?thesis by (simp add: fused_result_def matches_of_def)
  next
    case (Cons c cs)
    with m have "m = fused_match s c \<or> m \<in> set (drop 1 (py_take k (map (fused_match s) (c # cs))))"
      by (auto simp: fused_result_def matches_of_def Let_def split: if_splits)
    then show ?thesis
    proof
      assume "m = fused_match s c"
      with Cons show ?thesis by simp
    next
      assume "m \<in> set (drop 1 (py_take k (map (fused_match s) (c # cs))))"
      then have "m \<in> set (py_take k (map (fused_match s) (c # cs)))" by (rule in_set_dropD)
      with set_py_take [of k "map (fused_match s) (c # cs)"]
      have "m \<in> set (map (fused_match s) (c # cs))" by (rule subsetD)
      then obtain c' where "c' \<in> set (c # cs)" "m = fused_match s c'" by auto
      with Cons show ?thesis by auto
    qed
  qed
qed

text \<open>Where a returned match comes from.\<close>

lemma search_match_origin:
  assumes res: "search rt s q df k = (Inr r, s')" and m: "m \<in> set (matches_of r)"
  shows "(\<exists>best \<in> set (exact_match (db s) (normalize_text (tables rt) q) df 10).
            \<exists>mt txt. m = create_match (db s) best 1 mt txt)
       \<or> (\<exists>fz bf mt txt. fuzzy_match rt s (normalize_text (tables rt) q)
               (tokenize (tables rt) (normalize_text (tables rt) q)) df = Inr fz
             \<and> bf \<in> set fz \<and> m = create_match (db s) (scored.concept bf) (score bf / 100) mt txt)
       \<or> (\<exists>fz sem ws s1 c. fuzzy_match rt s (normalize_text (tables rt) q)
               (tokenize (tables rt) (normalize_text (tables rt) q)) df = Inr fz
             \<and> semantic_tier rt s (normalize_text (tables rt) q) df k = ((sem, ws), s1)
             \<and> c \<in> set (merge_and_rank (config s) fz sem df k) \<and> m = fused_match s c)"
proof -
  define nq where "nq = normalize_text (tables rt) q"
  define ex where "ex = exact_match (db s) nq df 10"
  show ?thesis
  proof (cases "ex = []")
    case False
    with res have "exact_tier s q nq df ex = Inr r"
      by (auto simp: search_def Let_def nq_def ex_def)
    from exact_tier_result [OF this] obtain best mt tx where "best \<in> set ex" and
        "r = \<lparr>query = q, normalized_query = nq, domain_filter = df, success = True,
              best_match = Some (create_match (db s) best 1 mt tx), candidates = [], warnings = []\<rparr>"
      by blast
    with m have "best \<in> set ex" "m = create_match (db s) best 1 mt tx"
      by (simp_all add: matches_of_def)
    then show ?thesis unfolding nq_def ex_def by blast
  next
    case True
    with res obtain fz where fz: "fuzzy_match rt s nq (tokenize (tables rt) nq) df = Inr fz"
      by (auto simp: search_def Let_def nq_def ex_def split: sum.splits)
    show ?thesis
    proof (cases "fz \<noteq> [] \<and> fuzzy_high_confidence (config s) \<le> score (hd fz)")
      case exit: True
      with True fz res have "fuzzy_exit s q nq df (hd fz) = Inr r"
        by (auto simp: search_def Let_def nq_def ex_def)
      from fuzzy_exit_result [OF this] obtain mt tx where
        "r = \<lparr>query = q, normalized_query = nq, domain_filter = df, success = True,
              best_match = Some (create_match (db s) (scored.concept (hd fz)) (score (hd fz) / 100) mt tx),
              candidates = [], warnings = []\<rparr>" by blast
      with m have "m = create_match (db s) (scored.concept (hd fz)) (score (hd fz) / 100) mt tx"
        by (simp add: matches_of_def)
      moreover from exit have "hd fz \<in> set fz" by simp
      ultimately show ?thesis using fz unfolding nq_def by blast
    next
      case False
      obtain sem ws s1 where st: "semantic_tier rt s nq df k = ((sem, ws), s1)"
        by (metis prod.exhaust)
      with True fz False res have r: "r = fused_result s1 q nq df k fz sem ws"
        by (auto simp: search_def Let_def nq_def ex_def)
      from semantic_tier_searcher [OF st] have same: "config s1 = config s" "db s1 = db s" by auto
      from fused_result_matches [of m s1 q nq df k fz sem ws] m r
      obtain c where "c \<in> set (merge_and_rank (config s1) fz sem df k)" "m = fused_match s1 c"
        by auto
      with same have "c \<in> set (merge_and_rank (config s) fz sem df k)" "m = fused_match s c"
        by (simp_all add: fused_match_def)
      with fz st show ?thesis unfolding nq_def by blast
    qed
  qed
qed

section \<open>The claims\<close>

text \<open>
  Claim C1: for every match that a lookup returns on an initialized store: if its status is
  already-standard, its analytics id is its own concept id; if it is mapped-to-standard,
  its analytics id is the resolved standard concept id, and the concept table holds a
  concept of that id whose standard flag is \<open>S\<close>; if no mapping is available, the
  analytics id is absent.
\<close>

theorem canonicalization_invariant:
  assumes "db s = initialize sql_lower concepts synonyms relationships"
    and "search rt s q dfilter top_k = (Inr r, s')"
    and "m \<in> set (matches_of r)"
  shows "canonical (db s) m"
proof -
  from assms(1) have built: "maps_to_lookup (db s) =
      create_maps_to_lookup (OMOPDatabase.concept (db s)) (concept_relationship (db s))"
    by (simp add: initialize_def)
  from search_match_origin [OF assms(2,3)] show ?thesis
    by (auto simp: fused_match_def intro: create_match_canonical [OF built])
qed

lemma demo_search: "search demo_runtime demo_searcher (ustr ''Heart Attack'') None 5 = (Inr demo_result, demo_searcher)"
  by code_simp

theorem canonicalization_invariant_witness:
  "db demo_searcher = initialize (\<lambda>c. c) demo_concepts demo_synonyms demo_relationships
   \<and> search demo_runtime demo_searcher (ustr ''Heart Attack'') None 5 = (Inr demo_result, demo_searcher)
   \<and> demo_match \<in> set (matches_of demo_result)
   \<and> resolution_status demo_match = MAPPED_TO_STANDARD
   \<and> canonical (db demo_searcher) demo_match"
proof -
  have a: "db demo_searcher = initialize (\<lambda>c. c) demo_concepts demo_synonyms demo_relationships"
    by (simp add: demo_searcher_def demo_db_def)
  have c: "demo_match \<in> set (matches_of demo_result)"
    by (simp add: matches_of_def demo_result_def)
  have d: "resolution_status demo_match = MAPPED_TO_STANDARD"
    by (simp add: demo_match_def)
  from canonicalization_invariant [OF a demo_search c] a demo_search c d show ?thesis by simp
qed

lemma exact_match_keys:
  "b \<in> set (exact_match database nq df n) \<Longrightarrow> source_type b \<noteq> None \<and> search_text b \<noteq> None"
  by (auto simp: exact_match_def)

lemma exact_match_nonempty:
  assumes "e \<in> set (concept_search database)"
    and "search_row.search_text_normalized e = nq"
    and "filter_applies df e"
  shows "exact_match database nq df (Suc n) \<noteq> []"
proof -
  from assms have "e \<in> set (filter (\<lambda>r. search_row.search_text_normalized r = nq \<and> filter_applies df r)
      (concept_search database))" by simp
  then have "filter (\<lambda>r. search_row.search_text_normalized r = nq \<and> filter_applies df r)
      (concept_search database) \<noteq> []" by (metis empty_iff empty_set)
  then show ?thesis by (simp add: exact_match_def)
qed

lemma create_match_confidence: "confidence (create_match database cd c mt tx) = min c 1"
  by (simp add: create_match_def split: prod.splits)

lemma exact_tier_returns:
  assumes "ex \<noteq> []" and "\<forall>b \<in> set ex. source_type b \<noteq> None \<and> search_text b \<noteq> None"
  shows "\<exists>r. exact_tier s q nq df ex = Inr r \<and> success r
           \<and> (\<exists>b. best_match r = Some b \<and> confidence b = 1) \<and> candidates r = []"
proof -
  from select_best_match_nonempty [OF assms(1)] obtain best
    where b: "select_best_match (config s) ex = Inr best" by blast
  from select_best_match_member [OF b] assms(2) obtain st tx
    where "source_type best = Some st" "search_text best = Some tx" by auto
  with b show ?thesis by (simp add: exact_tier_def create_match_confidence)
qed

text \<open>
  Claim C2: for every query whose normalized form is the stored normalized text of a search
  entry (an entry of the requested domain, when a domain filter is supplied), on an
  initialized store, the search returns a result with success true and a best match whose
  confidence is exactly 1.
\<close>

theorem exact_match_confidence:
  assumes "e \<in> set (concept_search (db s))"
    and "search_row.search_text_normalized e = normalize_text (tables rt) q"
    and "case dfilter of None \<Rightarrow> True | Some d \<Rightarrow> domain_id e = d"
  shows "\<exists>r. search rt s q dfilter top_k = (Inr r, s) \<and> success r
           \<and> (\<exists>b. best_match r = Some b \<and> confidence b = 1)"
proof -
  define nq where "nq = normalize_text (tables rt) q"
  from assms(3) have "filter_applies dfilter e"
    by (simp add: filter_applies_def split: option.splits)
  with assms(1,2) have ne: "exact_match (db s) nq dfilter 10 \<noteq> []"
    using exact_match_nonempty [of e "db s" nq dfilter 9] by (simp add: nq_def)
  from exact_tier_returns [OF ne, of s q nq dfilter] exact_match_keys
  obtain r where "exact_tier s q nq dfilter (exact_match (db s) nq dfilter 10) = Inr r"
    "success r" "\<exists>b. best_match r = Some b \<and> confidence b = 1" by blast
  with ne show ?thesis by (simp add: search_def Let_def nq_def)
qed

lemma demo_row_stored: "demo_row \<in> set (concept_search (db demo_searcher))"
  by code_simp

lemma demo_row_normalized:
  "search_row.search_text_normalized demo_row = normalize_text (tables demo_runtime) (ustr ''Heart Attack'')"
  by code_simp

theorem exact_match_confidence_witness:
  "demo_row \<in> set (concept_search (db demo_searcher))
   \<and> search_row.search_text_normalized demo_row
       = normalize_text (tables demo_runtime) (ustr ''Heart Attack'')
   \<and> domain_id demo_row = ''Condition''
   \<and> (\<exists>r. search demo_runtime demo_searcher (ustr ''Heart Attack'') (Some ''Condition'') 5
              = (Inr r, demo_searcher)
            \<and> success r \<and> (\<exists>b. best_match r = Some b \<and> confidence b = 1))"
proof -
  have d: "domain_id demo_row = ''Condition''" by (simp add: demo_row_def)
  then have "case Some ''Condition'' of None \<Rightarrow> True | Some d \<Rightarrow> domain_id demo_row = d" by simp
  from exact_match_confidence [OF demo_row_stored demo_row_normalized this, of 5]
    demo_row_stored demo_row_normalized d
  show ?thesis by simp
qed

lemma search_paths:
  assumes "search rt s q df k = (Inr r, s')"
  obtains
    (exact) "exact_match (db s) (normalize_text (tables rt) q) df 10 \<noteq> []"
      "exact_tier s q (normalize_text (tables rt) q) df
         (exact_match (db s) (normalize_text (tables rt) q) df 10) = Inr r" "s' = s"
  | (fuzzy) fz where "exact_match (db s) (normalize_text (tables rt) q) df 10 = []"
      "fuzzy_match rt s (normalize_text (tables rt) q)
         (tokenize (tables rt) (normalize_text (tables rt) q)) df = Inr fz"
      "fz \<noteq> []" "fuzzy_high_confidence (config s) \<le> score (hd fz)"
      "fuzzy_exit s q (normalize_text (tables rt) q) df (hd fz) = Inr r" "s' = s"
  | (fused) fz sem ws where "exact_match (db s) (normalize_text (tables rt) q) df 10 = []"
      "fuzzy_match rt s (normalize_text (tables rt) q)
         (tokenize (tables rt) (normalize_text (tables rt) q)) df = Inr fz"
      "\<not> (fz \<noteq> [] \<and> fuzzy_high_confidence (config s) \<le> score (hd fz))"
      "semantic_tier rt s (normalize_text (tables rt) q) df k = ((sem, ws), s')"
      "r = fused_result s' q (normalize_text (tables rt) q) df k fz sem ws"
proof -
  define nq where "nq = normalize_text (tables rt) q"
  define ex where "ex = exact_match (db s) nq df 10"
  show thesis
  proof (cases "ex = []")
    case False
    with assms have "exact_tier s q nq df ex = Inr r" "s' = s"
      by (auto simp: search_def Let_def nq_def ex_def)
    with False show thesis using exact unfolding nq_def ex_def by blast
  next
    case True
    with assms obtain fz where fz: "fuzzy_match rt s nq (tokenize (tables rt) nq) df = Inr fz"
      by (auto simp: search_def Let_def nq_def ex_def split: sum.splits)
    show thesis
    proof (cases "fz \<noteq> [] \<and> fuzzy_high_confidence (config s) \<le> score (hd fz)")
      case exit: True
      with True fz assms have "fuzzy_exit s q nq df (hd fz) = Inr r" "s' = s"
        by (auto simp: search_def Let_def nq_def ex_def)
      with True fz exit show thesis using fuzzy unfolding nq_def ex_def by blast
    next
      case False
      obtain sem ws s1 where st: "semantic_tier rt s nq df k = ((sem, ws), s1)"
        by (metis prod.exhaust)
      with True fz False assms have "r = fused_result s1 q nq df k fz sem ws" "s' = s1"
        by (auto simp: search_def Let_def nq_def ex_def)
      with True fz False st show thesis using fused unfolding nq_def ex_def by blast
    qed
  qed
qed

lemma fused_result_success:
  "success (fused_result s q nq df k fz sem ws)
     = meets_threshold (config s) (fused_result s q nq df k fz sem ws)"
  by (cases "merge_and_rank (config s) fz sem df k")
     (simp_all add: fused_result_def meets_threshold_def Let_def)

text \<open>
  Claim C3, as the code has it.  The returned result has success true exactly when the
  search left through an early exit (an exact hit, or a best fuzzy score that reaches
  \<open>fuzzy_high_confidence\<close>) or the best match reaches \<open>confidence_threshold\<close>.
  For a configuration whose threshold is at most 1 and at most
  \<open>fuzzy_high_confidence / 100\<close>, as the default one is, success is true exactly when
  there is a best match whose confidence reaches the threshold.  For every configuration
  the claim does not hold: an early exit sets success without looking at the threshold,
  as \<open>success_determination_counterexample\<close> shows for a threshold of 0.97.
\<close>

theorem success_determination:
  assumes "search rt s q dfilter top_k = (Inr r, s')"
  shows "(success r \<longleftrightarrow> early_exit rt s q dfilter \<or> meets_threshold (config s) r)
       \<and> (confidence_threshold (config s) \<le> 1
            \<and> confidence_threshold (config s) \<le> fuzzy_high_confidence (config s) / 100
           \<longrightarrow> (success r \<longleftrightarrow> meets_threshold (config s) r))"
  using assms
proof (cases rule: search_paths)
  case exact
  from exact(1) have ee: "early_exit rt s q dfilter" by (simp add: early_exit_def Let_def)
  from exact_tier_result [OF exact(2)] obtain best mt tx where
    r: "r = \<lparr>query = q, normalized_query = normalize_text (tables rt) q, domain_filter = dfilter,
              success = True, best_match = Some (create_match (db s) best 1 mt tx),
              candidates = [], warnings = []\<rparr>" by blast
  then have "success r" and "confidence_threshold (config s) \<le> 1 \<Longrightarrow> meets_threshold (config s) r"
    by (simp_all add: meets_threshold_def create_match_confidence)
  with ee show ?thesis by blast
next
  case (fuzzy fz)
  from fuzzy(1-4) have ee: "early_exit rt s q dfilter" by (simp add: early_exit_def Let_def)
  from fuzzy_exit_result [OF fuzzy(5)] obtain mt tx where
    r: "r = \<lparr>query = q, normalized_query = normalize_text (tables rt) q, domain_filter = dfilter,
              success = True,
              best_match = Some (create_match (db s) (scored.concept (hd fz)) (score (hd fz) / 100) mt tx),
              candidates = [], warnings = []\<rparr>" by blast
  have "meets_threshold (config s) r"
    if "confidence_threshold (config s) \<le> 1"
      and "confidence_threshold (config s) \<le> fuzzy_high_confidence (config s) / 100"
  proof -
    from fuzzy(4) have "fuzzy_high_confidence (config s) / 100 \<le> score (hd fz) / 100" by simp
    with that show ?thesis by (simp add: r meets_threshold_def create_match_confidence)
  qed
  moreover from r have "success r" by simp
  ultimately show ?thesis using ee by blast
next
  case (fused fz sem ws)
  from semantic_tier_searcher [OF fused(4)] have same: "config s' = config s" by simp
  from fused(1-3) have "\<not> early_exit rt s q dfilter" by (auto simp: early_exit_def Let_def)
  moreover from fused(5) same have "success r = meets_threshold (config s) r"
    using fused_result_success [of s' q "normalize_text (tables rt) q" dfilter top_k fz sem ws] by simp
  ultimately show ?thesis by blast
qed

lemma success_counterexample_search:
  "search hit_runtime strict_searcher (ustr ''heart'') None 5 = (Inr strict_result, strict_searcher)"
  by code_simp

theorem success_determination_counterexample:
  "search hit_runtime strict_searcher (ustr ''heart'') None 5 = (Inr strict_result, strict_searcher)
   \<and> success strict_result
   \<and> \<not> meets_threshold (config strict_searcher) strict_result"
proof -
  have "success strict_result" by (simp add: strict_result_def)
  moreover have "\<not> meets_threshold (config strict_searcher) strict_result"
    by (simp add: meets_threshold_def strict_result_def strict_searcher_def)
  ultimately show ?thesis using success_counterexample_search by simp
qed

theorem success_determination_witness:
  "search hit_runtime strict_searcher (ustr ''heart'') None 5 = (Inr strict_result, strict_searcher)
   \<and> success strict_result
   \<and> early_exit hit_runtime strict_searcher (ustr ''heart'') None
   \<and> \<not> meets_threshold (config strict_searcher) strict_result
   \<and> \<not> confidence_threshold (config strict_searcher)
          \<le> fuzzy_high_confidence (config strict_searcher) / 100"
proof -
  have a: "success strict_result" by (simp add: strict_result_def)
  have b: "\<not> meets_threshold (config strict_searcher) strict_result"
    by (simp add: meets_threshold_def strict_result_def strict_searcher_def)
  have c: "\<not> confidence_threshold (config strict_searcher)
          \<le> fuzzy_high_confidence (config strict_searcher) / 100"
    by (simp add: strict_searcher_def DEFAULT_CONFIG_def)
  from success_determination [OF success_counterexample_search] a b
  have "early_exit hit_runtime strict_searcher (ustr ''heart'') None" by blast
  with a b c success_counterexample_search show ?thesis by simp
qed

lemma py_take_Nil: "py_take n [] = []"
  by (simp add: py_take_def)

lemma merge_and_rank_Nil: "merge_and_rank cfg [] [] df k = []"
  by (simp add: merge_and_rank_def candidates_by_id_def sort_desc_def py_take_Nil)

text \<open>
  Claim C7, as the code has it.  For a query that yields no exact result, no fuzzy result
  and no semantic result, the search returns success false, no best match, no candidates,
  and its warnings end with the text \<open>No matches found\<close>, after the warnings of the
  semantic tier.  The text begins with a capital letter: a warning equal to
  \<open>no matches found\<close> is not among them.
\<close>

theorem no_matches_found:
  assumes "exact_match (db s) (normalize_text (tables rt) q) dfilter 10 = []"
    and "fuzzy_match rt s (normalize_text (tables rt) q)
           (tokenize (tables rt) (normalize_text (tables rt) q)) dfilter = Inr []"
    and "semantic_tier rt s (normalize_text (tables rt) q) dfilter top_k = (([], ws), s')"
  shows "search rt s q dfilter top_k =
           (Inr \<lparr>query = q, normalized_query = normalize_text (tables rt) q,
                  domain_filter = dfilter, success = False, best_match = None, candidates = [],
                  warnings = ws @ [Message ''No matches found'']\<rparr>, s')"
  using assms by (simp add: search_def Let_def fused_result_def merge_and_rank_Nil)

lemma none_normalized: "normalize_text (tables demo_runtime) (ustr ''zzz'') = ustr ''zzz''"
  by code_simp

lemma none_exact: "exact_match (db demo_searcher) (ustr ''zzz'') None 10 = []"
  by code_simp

lemma none_fuzzy:
  "fuzzy_match demo_runtime demo_searcher (ustr ''zzz'') (tokenize (tables demo_runtime) (ustr ''zzz'')) None
     = Inr []"
  by code_simp

lemma none_semantic:
  "semantic_tier demo_runtime demo_searcher (ustr ''zzz'') None 5 = (([], []), demo_searcher)"
  by (simp add: semantic_tier_def demo_searcher_def)

lemma none_search:
  "search demo_runtime demo_searcher (ustr ''zzz'') None 5 = (Inr none_result, demo_searcher)"
  by (simp add: search_def Let_def fused_result_def merge_and_rank_Nil none_normalized none_exact
      none_fuzzy none_semantic none_result_def)

theorem no_matches_found_witness:
  "exact_match (db demo_searcher) (normalize_text (tables demo_runtime) (ustr ''zzz'')) None 10 = []
   \<and> fuzzy_match demo_runtime demo_searcher (normalize_text (tables demo_runtime) (ustr ''zzz''))
       (tokenize (tables demo_runtime) (normalize_text (tables demo_runtime) (ustr ''zzz''))) None = Inr []
   \<and> semantic_tier demo_runtime demo_searcher (normalize_text (tables demo_runtime) (ustr ''zzz'')) None 5
       = (([], []), demo_searcher)
   \<and> search demo_runtime demo_searcher (ustr ''zzz'') None 5 = (Inr none_result, demo_searcher)"
  using no_matches_found [of demo_searcher demo_runtime "ustr ''zzz''" None 5 "[]" demo_searcher]
  by (simp add: none_normalized none_exact none_fuzzy none_semantic none_result_def)

theorem no_matches_found_counterexample:
  "search demo_runtime demo_searcher (ustr ''zzz'') None 5 = (Inr none_result, demo_searcher)
   \<and> success none_result = False \<and> best_match none_result = None \<and> candidates none_result = []
   \<and> warnings none_result = [Message ''No matches found'']
   \<and> Message ''no matches found'' \<notin> set (warnings none_result)"
  using none_search by (simp add: none_result_def)

section \<open>The fuzzy tier and the ranking\<close>

lemma process_extract_index:
  assumes "m \<in> set (process_extract scorer q choices lmt cutoff)"
  shows "snd (snd m) < length choices \<and> fst (snd m) = scorer q (fst m)"
proof -
  from assms have "m \<in> set (sort_desc (\<lambda>m. fst (snd m))
       (filter (\<lambda>m. cutoff \<le> fst (snd m))
         (map (\<lambda>(idx, choice). (choice, scorer q choice, idx)) (enumerate 0 choices))))"
    unfolding process_extract_def by (rule in_set_takeD)
  then have "m \<in> set (map (\<lambda>(idx, choice). (choice, scorer q choice, idx)) (enumerate 0 choices))"
    by (simp add: set_sort_desc)
  then obtain idx choice where "(idx, choice) \<in> set (enumerate 0 choices)"
    and "m = (choice, scorer q choice, idx)" by auto
  then show ?thesis by (simp add: in_set_enumerate_eq)
qed

lemma candidate_texts_length: "candidate_texts cs = Inr ts \<Longrightarrow> length ts = length cs"
  by (induction cs arbitrary: ts) (auto split: sum.splits)

lemma fuzzy_match_results:
  assumes "fuzzy_match rt s nq toks df = Inr fz" and "bf \<in> set fz"
  shows "\<exists>cands t. get_candidates_by_token_overlap (execute_other rt) (db s) toks df 1
             (max_fuzzy_candidates (config s))
             = Inr cands
           \<and> scored.concept bf \<in> set cands \<and> score bf = WRatio rt nq t"
proof -
  from assms(1) obtain cands where
    c: "get_candidates_by_token_overlap (execute_other rt) (db s) toks df 1
             (max_fuzzy_candidates (config s)) = Inr cands"
    by (auto simp: fuzzy_match_def split: sum.splits)
  show ?thesis
  proof (cases "cands = []")
    case True
    with assms c show ?thesis by (simp add: fuzzy_match_def)
  next
    case False
    with assms(1) c obtain texts where t: "candidate_texts cands = Inr texts"
      by (auto simp: fuzzy_match_def split: sum.splits)
    define ms where "ms = process_extract (WRatio rt) nq texts (min 50 (length cands))
        (fuzzy_min_threshold (config s))"
    from assms(1) c False t have "fz = sort_desc score
        (map (\<lambda>(match_text, sc, idx).
           \<lparr>scored.concept = cands ! idx, score = sc, scored.matched_text = match_text\<rparr>) ms)"
      by (simp add: fuzzy_match_def ms_def)
    with assms(2) have "bf \<in> set (map (\<lambda>(match_text, sc, idx).
           \<lparr>scored.concept = cands ! idx, score = sc, scored.matched_text = match_text\<rparr>) ms)"
      by (simp add: set_sort_desc)
    then obtain match_text sc idx where m: "(match_text, sc, idx) \<in> set ms"
      and bf: "bf = \<lparr>scored.concept = cands ! idx, score = sc, scored.matched_text = match_text\<rparr>"
      by auto
    from process_extract_index [OF m [unfolded ms_def]] candidate_texts_length [OF t]
    have "idx < length cands" "sc = WRatio rt nq match_text" by simp_all
    with bf c show ?thesis by auto
  qed
qed

text \<open>A filter without a quote is the string that \<^verbatim>\<open>domain_id\<close> is compared with.\<close>

lemma sql_lex_literal:
  "CHR 0x27 \<notin> set d \<Longrightarrow> sql_lex (In_literal acc) (d @ [CHR 0x27]) = Some [Literal (acc @ d)]"
  by (induction d arbitrary: acc) auto

lemma parse_filter_plain: "CHR 0x27 \<notin> set d \<Longrightarrow> parse_filter d = Some (d, [])"
  by (simp add: parse_filter_def sql_lex_literal)

lemma overlap_rows_plain:
  assumes "\<forall>t \<in> set toks. 39 \<notin> set t"
    and "case df of None \<Rightarrow> True | Some d \<Rightarrow> CHR 0x27 \<notin> set d"
  shows "overlap_rows eo database toks df lmt
           = Inr (take lmt (filter (\<lambda>r. token_condition toks r \<and> filter_applies df r)
                   (concept_search database)))"
proof (cases df)
  case None
  with assms(1) show ?thesis by (simp add: overlap_rows_def filter_applies_def)
next
  case (Some d)
  with assms(2) have "parse_filter d = Some (d, [])" by (simp add: parse_filter_plain)
  with assms(1) Some show ?thesis by (simp add: overlap_rows_def filter_applies_def)
qed

lemma overlap_candidate:
  assumes "get_candidates_by_token_overlap eo database toks df mo lmt = Inr cands" and "c \<in> set cands"
    and "\<forall>t \<in> set toks. 39 \<notin> set t"
    and "case df of None \<Rightarrow> True | Some d \<Rightarrow> CHR 0x27 \<notin> set d"
  shows "\<exists>r \<in> set (concept_search database). filter_applies df r \<and> domain_id c = domain_id r"
proof -
  from assms(1,2) have "toks \<noteq> []" by (auto simp: get_candidates_by_token_overlap_def)
  with assms(1) overlap_rows_plain [OF assms(3,4), of eo database lmt]
  have "cands = map (\<lambda>r. \<lparr>concept_id = concept_core.concept_id r, concept_name = concept_name r,
                domain_id = domain_id r, vocabulary_id = vocabulary_id r,
                concept_class_id = concept_class_id r, standard_concept = standard_concept r,
                concept_code = concept_code r,
                search_text = Some (search_row.search_text r),
                source_type = Some (search_row.source_type r),
                search_text_normalized = Some (search_row.search_text_normalized r)\<rparr>)
        (take lmt (filter (\<lambda>r. token_condition toks r \<and> filter_applies df r) (concept_search database)))"
    by (simp add: get_candidates_by_token_overlap_def)
  with assms(2) obtain r where
    r: "r \<in> set (take lmt (filter (\<lambda>r. token_condition toks r \<and> filter_applies df r)
          (concept_search database)))"
    and c: "domain_id c = domain_id r"
    by auto
  from in_set_takeD [OF r] have "r \<in> set (concept_search database)" "filter_applies df r" by simp_all
  with c show ?thesis by blast
qed

text \<open>Every candidate has the keys that the statement selects.\<close>

lemma overlap_keys:
  assumes "get_candidates_by_token_overlap eo database toks df mo lmt = Inr cands" and "c \<in> set cands"
  shows "search_text_normalized c \<noteq> None \<and> search_text c \<noteq> None \<and> source_type c \<noteq> None"
proof -
  from assms have ne: "toks \<noteq> []" by (auto simp: get_candidates_by_token_overlap_def)
  show ?thesis
  proof (cases "overlap_rows eo database toks df lmt")
    case (Inl e)
    with assms(1) ne show ?thesis by (simp add: get_candidates_by_token_overlap_def)
  next
    case (Inr rows)
    with assms(1) ne have
      "cands = map (\<lambda>r. \<lparr>concept_id = concept_core.concept_id r, concept_name = concept_name r,
                domain_id = domain_id r, vocabulary_id = vocabulary_id r,
                concept_class_id = concept_class_id r, standard_concept = standard_concept r,
                concept_code = concept_code r,
                search_text = Some (search_row.search_text r),
                source_type = Some (search_row.source_type r),
                search_text_normalized = Some (search_row.search_text_normalized r)\<rparr>) rows"
      by (simp add: get_candidates_by_token_overlap_def)
    with assms(2) show ?thesis by auto
  qed
qed

lemma exact_candidate:
  assumes "c \<in> set (exact_match database nq df n)"
  shows "\<exists>r \<in> set (concept_search database). filter_applies df r \<and> domain_id c = domain_id r"
proof -
  from assms obtain r where
    r: "r \<in> set (take n (filter (\<lambda>r. search_row.search_text_normalized r = nq \<and> filter_applies df r)
          (concept_search database)))" and c: "domain_id c = domain_id r"
    by (auto simp: exact_match_def)
  from in_set_takeD [OF r] c show ?thesis by auto
qed

lemma semantic_match_domain:
  assumes "semantic_match index database q (Some d) k = Inr rs" and "d \<noteq> []" and "r \<in> set rs"
  shows "domain_id (scored.concept r) = d"
  using assms
  by (auto simp: semantic_match_def split: sum.splits option.splits if_splits)

lemma semantic_tier_domain:
  assumes "semantic_tier rt s nq (Some d) k = ((sem, ws), s')" and "d \<noteq> []" and "r \<in> set sem"
  shows "domain_id (scored.concept r) = d"
proof (cases "enable_semantic s")
  case False
  with assms show ?thesis by (simp add: semantic_tier_def)
next
  case True
  show ?thesis
  proof (cases "semantic rt")
    case Import_Error
    with True assms show ?thesis by (simp add: semantic_tier_def)
  next
    case Not_Available
    with True assms show ?thesis by (simp add: semantic_tier_def)
  next
    case (Available index)
    show ?thesis
    proof (cases "semantic_match index (db s) nq (Some d) (k * 2)")
      case (Inl e)
      with True Available assms show ?thesis by (simp add: semantic_tier_def)
    next
      case (Inr rs)
      with True Available assms have "sem = rs" by (simp add: semantic_tier_def)
      with semantic_match_domain [OF Inr assms(2)] assms(3) show ?thesis by simp
    qed
  qed
qed

text \<open>What holds of every entry that the two loops store holds of every ranked candidate.\<close>

lemma set_dict_set: "set (dict_set k v d) \<subseteq> insert (k, v) (set d)"
  by (induction d) (auto split: if_splits)

lemma map_of_dict_set: "map_of (dict_set k v d) k' = (if k' = k then Some v else map_of d k')"
  by (induction d) auto

lemma add_fuzzy_invariant:
  assumes "\<forall>e \<in> snd ` set d. P e"
    and "P \<lparr>candidate.concept = scored.concept r, fuzzy_score = score r / 100, semantic_score = 0,
            candidate.match_type =
              (if source_type (scored.concept r) = Some ''name'' then FUZZY_NAME else FUZZY_SYNONYM)\<rparr>"
  shows "\<forall>e \<in> snd ` set (add_fuzzy d r). P e"
  using assms set_dict_set unfolding add_fuzzy_def by fastforce

lemma add_semantic_invariant:
  assumes "\<forall>e \<in> snd ` set d. P e"
    and "P \<lparr>candidate.concept = scored.concept r, fuzzy_score = 0, semantic_score = score r,
            candidate.match_type = SEMANTIC\<rparr>"
    and "\<And>e. P e \<Longrightarrow> P (e\<lparr>semantic_score := score r\<rparr>)"
  shows "\<forall>e \<in> snd ` set (add_semantic d r). P e"
proof (cases "map_of d (concept_id (scored.concept r))")
  case None
  with assms(1,2) set_dict_set show ?thesis unfolding add_semantic_def by fastforce
next
  case (Some e)
  then have "(concept_id (scored.concept r), e) \<in> set d" by (rule map_of_SomeD)
  with assms(1) have "P e" by force
  then have "P (e\<lparr>semantic_score := score r\<rparr>)" by (rule assms(3))
  with assms(1) Some set_dict_set show ?thesis unfolding add_semantic_def by fastforce
qed

lemma foldl_add_fuzzy_invariant:
  assumes "\<forall>e \<in> snd ` set d. P e"
    and "\<And>r. r \<in> set fz \<Longrightarrow>
           P \<lparr>candidate.concept = scored.concept r, fuzzy_score = score r / 100, semantic_score = 0,
              candidate.match_type =
                (if source_type (scored.concept r) = Some ''name'' then FUZZY_NAME else FUZZY_SYNONYM)\<rparr>"
  shows "\<forall>e \<in> snd ` set (foldl add_fuzzy d fz). P e"
  using assms
proof (induction fz arbitrary: d)
  case Nil
  then show ?case by simp
next
  case (Cons r fz)
  from add_fuzzy_invariant [of d P r] Cons.prems have "\<forall>e \<in> snd ` set (add_fuzzy d r). P e" by simp
  from Cons.IH [OF this] Cons.prems(2) show ?case by simp
qed

lemma foldl_add_semantic_invariant:
  assumes "\<forall>e \<in> snd ` set d. P e"
    and "\<And>r. r \<in> set sem \<Longrightarrow>
           P \<lparr>candidate.concept = scored.concept r, fuzzy_score = 0, semantic_score = score r,
              candidate.match_type = SEMANTIC\<rparr>"
    and "\<And>e r. P e \<Longrightarrow> r \<in> set sem \<Longrightarrow> P (e\<lparr>semantic_score := score r\<rparr>)"
  shows "\<forall>e \<in> snd ` set (foldl add_semantic d sem). P e"
  using assms
proof (induction sem arbitrary: d)
  case Nil
  then show ?case by simp
next
  case (Cons r sem)
  from add_semantic_invariant [of d P r] Cons.prems
  have "\<forall>e \<in> snd ` set (add_semantic d r). P e" by simp
  from Cons.IH [OF this] Cons.prems(2,3) show ?case by simp
qed

lemma merge_and_rank_invariant:
  assumes "c \<in> set (merge_and_rank cfg fz sem df k)"
    and "\<And>r. r \<in> set fz \<Longrightarrow>
           P \<lparr>candidate.concept = scored.concept r, fuzzy_score = score r / 100, semantic_score = 0,
              candidate.match_type =
                (if source_type (scored.concept r) = Some ''name'' then FUZZY_NAME else FUZZY_SYNONYM)\<rparr>"
    and "\<And>r. r \<in> set sem \<Longrightarrow>
           P \<lparr>candidate.concept = scored.concept r, fuzzy_score = 0, semantic_score = score r,
              candidate.match_type = SEMANTIC\<rparr>"
    and "\<And>e r. P e \<Longrightarrow> r \<in> set sem \<Longrightarrow> P (e\<lparr>semantic_score := score r\<rparr>)"
  shows "P c"
proof -
  have "\<forall>e \<in> snd ` set (foldl add_fuzzy [] fz). P e"
    by (rule foldl_add_fuzzy_invariant) (simp_all add: assms(2))
  then have all: "\<forall>e \<in> snd ` set (candidates_by_id fz sem). P e"
    unfolding candidates_by_id_def
    by (rule foldl_add_semantic_invariant) (simp_all add: assms(3,4))
  from assms(1) have "c \<in> set (py_take (k * 2) (sort_desc (combined_score cfg)
      (map snd (candidates_by_id fz sem))))"
    by (simp only: merge_and_rank_def)
  with set_py_take [of "k * 2" "sort_desc (combined_score cfg) (map snd (candidates_by_id fz sem))"]
  have "c \<in> set (sort_desc (combined_score cfg) (map snd (candidates_by_id fz sem)))"
    by (rule subsetD)
  then have "c \<in> snd ` set (candidates_by_id fz sem)" by (simp add: set_sort_desc)
  with all show ?thesis by blast
qed

section \<open>The search returns\<close>

lemma sub_non_word_chars: "c \<in> set (sub_non_word u x) \<Longrightarrow> is_word u c \<or> py_isspace u c"
  by (auto simp: sub_non_word_def isspace_32)

lemma tokenize_normalize_text:
  "tokenize u (normalize_text u q)
     = (if q = [] then [] else py_split u (sub_non_word u (strip_combining u (py_lower u (nfkd u q)))))"
proof (cases "q = []")
  case True
  then show ?thesis by (simp add: tokenize_def normalize_text_def py_split_def)
next
  case False
  define ts where "ts = py_split u (sub_non_word u (strip_combining u (py_lower u (nfkd u q))))"
  have tok: "\<forall>t \<in> set ts. t \<noteq> [] \<and> (\<forall>c \<in> set t. \<not> py_isspace u c)"
    using split_ws_tokens [of _ "py_isspace u" "[]"] unfolding ts_def py_split_def by fastforce
  have "py_split u (join_space ts) = ts"
  proof (cases "ts = []")
    case True
    then show ?thesis by (simp add: py_split_def)
  next
    case False
    with tok show ?thesis unfolding py_split_def by (intro split_ws_join) (auto simp: isspace_32)
  qed
  with False show ?thesis by (simp add: tokenize_def normalize_text_def ts_def)
qed

lemma token_chars:
  assumes "t \<in> set (tokenize u (normalize_text u q))" and "c \<in> set t"
  shows "is_word u c"
proof -
  from assms(1) have "t \<in> set (split_ws (py_isspace u) []
      (sub_non_word u (strip_combining u (py_lower u (nfkd u q)))))"
    by (simp add: tokenize_normalize_text py_split_def split: if_splits)
  from split_ws_tokens [OF this] assms(2)
  have "c \<in> set (sub_non_word u (strip_combining u (py_lower u (nfkd u q))))" "\<not> py_isspace u c"
    by auto
  with sub_non_word_chars show ?thesis by blast
qed

lemma token_no_quote: "t \<in> set (tokenize u (normalize_text u q)) \<Longrightarrow> 39 \<notin> set t"
proof
  assume "t \<in> set (tokenize u (normalize_text u q))" and "39 \<in> set t"
  then have "is_word u 39" by (rule token_chars)
  then show False by (simp add: is_word_def py_isalnum_def)
qed

lemma candidate_texts_returns:
  "\<forall>c \<in> set cs. search_text_normalized c \<noteq> None \<and> search_text c \<noteq> None \<Longrightarrow>
     \<exists>ts. candidate_texts cs = Inr ts"
proof (induction cs)
  case Nil
  then show ?case by simp
next
  case (Cons c cs)
  then obtain ts where "candidate_texts cs = Inr ts" by auto
  moreover from Cons.prems obtain n t where "search_text_normalized c = Some n" "search_text c = Some t"
    by auto
  ultimately show ?case by (simp add: candidate_text_def)
qed

lemma overlap_returns:
  assumes "\<forall>t \<in> set toks. 39 \<notin> set t"
    and "case df of None \<Rightarrow> True | Some d \<Rightarrow> CHR 0x27 \<notin> set d"
  shows "\<exists>cands. get_candidates_by_token_overlap eo database toks df mo lmt = Inr cands"
  using overlap_rows_plain [OF assms, of eo database lmt]
  by (simp add: get_candidates_by_token_overlap_def)

lemma fuzzy_match_returns:
  assumes "\<forall>t \<in> set toks. 39 \<notin> set t"
    and "case df of None \<Rightarrow> True | Some d \<Rightarrow> CHR 0x27 \<notin> set d"
  shows "\<exists>fz. fuzzy_match rt s nq toks df = Inr fz"
proof -
  from overlap_returns [OF assms, of "execute_other rt" "db s" 1 "max_fuzzy_candidates (config s)"]
  obtain cands where c: "get_candidates_by_token_overlap (execute_other rt) (db s) toks df 1
       (max_fuzzy_candidates (config s)) = Inr cands" by blast
  from overlap_keys [OF c]
  have "\<forall>c \<in> set cands. search_text_normalized c \<noteq> None \<and> search_text c \<noteq> None" by blast
  from candidate_texts_returns [OF this] obtain ts where "candidate_texts cands = Inr ts" ..
  with c show ?thesis by (simp add: fuzzy_match_def)
qed

lemma fuzzy_match_keys:
  assumes "fuzzy_match rt s nq toks df = Inr fz" and "bf \<in> set fz"
  shows "source_type (scored.concept bf) \<noteq> None \<and> search_text (scored.concept bf) \<noteq> None"
proof -
  from fuzzy_match_results [OF assms] obtain cands where
    "get_candidates_by_token_overlap (execute_other rt) (db s) toks df 1
       (max_fuzzy_candidates (config s)) = Inr cands"
    and "scored.concept bf \<in> set cands" by blast
  from overlap_keys [OF this] show ?thesis by simp
qed

text \<open>With no quote in the domain filter the search returns a result.\<close>

lemma search_returns:
  assumes "case df of None \<Rightarrow> True | Some d \<Rightarrow> CHR 0x27 \<notin> set d"
  shows "\<exists>r s'. search rt s q df k = (Inr r, s')"
proof -
  define nq where "nq = normalize_text (tables rt) q"
  define ex where "ex = exact_match (db s) nq df 10"
  show ?thesis
  proof (cases "ex = []")
    case False
    from exact_tier_returns [OF False, of s q nq df] exact_match_keys
    obtain r where "exact_tier s q nq df ex = Inr r" unfolding ex_def by blast
    with False show ?thesis by (simp add: search_def Let_def nq_def ex_def)
  next
    case True
    have "\<forall>t \<in> set (tokenize (tables rt) nq). 39 \<notin> set t"
      unfolding nq_def using token_no_quote by blast
    from fuzzy_match_returns [OF this assms] obtain fz
      where fz: "fuzzy_match rt s nq (tokenize (tables rt) nq) df = Inr fz" by blast
    show ?thesis
    proof (cases "fz \<noteq> [] \<and> fuzzy_high_confidence (config s) \<le> score (hd fz)")
      case exit: True
      then have "hd fz \<in> set fz" by simp
      from fuzzy_match_keys [OF fz this] obtain st tx where
        "source_type (scored.concept (hd fz)) = Some st" "search_text (scored.concept (hd fz)) = Some tx"
        by auto
      then have "\<exists>r. fuzzy_exit s q nq df (hd fz) = Inr r" by (simp add: fuzzy_exit_def)
      with True fz exit show ?thesis by (auto simp: search_def Let_def nq_def ex_def)
    next
      case False
      obtain sem ws s1 where "semantic_tier rt s nq df k = ((sem, ws), s1)" by (metis prod.exhaust)
      with True fz False show ?thesis by (auto simp: search_def Let_def nq_def ex_def)
    qed
  qed
qed

lemma filter_applies_domain: "filter_applies (Some d) r \<Longrightarrow> d \<noteq> [] \<Longrightarrow> domain_id r = d"
  by (simp add: filter_applies_def)

lemma create_match_domain: "domain_id (create_match database cd c mt tx) = domain_id cd"
  by (simp add: create_match_def split: prod.splits)

lemma matches_have_filter_domain:
  assumes res: "search rt s q (Some d) top_k = (Inr r, s')"
    and d: "d \<noteq> []"
    and plain: "CHR 0x27 \<notin> set d"
    and m: "m \<in> set (matches_of r)"
  shows "domain_id m = d"
proof -
  define nq where "nq = normalize_text (tables rt) q"
  have fuzzy_domain: "domain_id (scored.concept bf) = d"
    if "fuzzy_match rt s nq (tokenize (tables rt) nq) (Some d) = Inr fz" and "bf \<in> set fz" for fz bf
  proof -
    from fuzzy_match_results [OF that] obtain cands where
      c: "get_candidates_by_token_overlap (execute_other rt) (db s) (tokenize (tables rt) nq) (Some d) 1
         (max_fuzzy_candidates (config s)) = Inr cands"
      and b: "scored.concept bf \<in> set cands" by blast
    have "\<forall>t \<in> set (tokenize (tables rt) nq). 39 \<notin> set t"
      unfolding nq_def using token_no_quote by blast
    from overlap_candidate [OF c b this] plain d show ?thesis
      by (auto dest: filter_applies_domain)
  qed
  from search_match_origin [OF res m]
  consider (exact) best mt tx where "best \<in> set (exact_match (db s) nq (Some d) 10)"
      "m = create_match (db s) best 1 mt tx"
    | (fuzzy) fz bf mt tx where "fuzzy_match rt s nq (tokenize (tables rt) nq) (Some d) = Inr fz"
      "bf \<in> set fz" "m = create_match (db s) (scored.concept bf) (score bf / 100) mt tx"
    | (fused) fz sem ws s1 c where "fuzzy_match rt s nq (tokenize (tables rt) nq) (Some d) = Inr fz"
      "semantic_tier rt s nq (Some d) top_k = ((sem, ws), s1)"
      "c \<in> set (merge_and_rank (config s) fz sem (Some d) top_k)" "m = fused_match s c"
    unfolding nq_def by blast
  then show ?thesis
  proof cases
    case exact
    from exact_candidate [OF exact(1)] d have "domain_id best = d"
      by (auto dest: filter_applies_domain)
    with exact(2) show ?thesis by (simp add: create_match_domain)
  next
    case fuzzy
    from fuzzy_domain [OF fuzzy(1,2)] fuzzy(3) show ?thesis by (simp add: create_match_domain)
  next
    case fused
    have "domain_id (candidate.concept c) = d"
    proof (rule merge_and_rank_invariant [OF fused(3), where P = "\<lambda>e. domain_id (candidate.concept e) = d"])
      fix r assume "r \<in> set fz"
      with fuzzy_domain [OF fused(1)] show "domain_id (candidate.concept
          \<lparr>candidate.concept = scored.concept r, fuzzy_score = score r / 100, semantic_score = 0,
           candidate.match_type =
             (if source_type (scored.concept r) = Some ''name'' then FUZZY_NAME else FUZZY_SYNONYM)\<rparr>) = d"
        by simp
    next
      fix r assume "r \<in> set sem"
      with semantic_tier_domain [OF fused(2) d] show "domain_id (candidate.concept
          \<lparr>candidate.concept = scored.concept r, fuzzy_score = 0, semantic_score = score r,
           candidate.match_type = SEMANTIC\<rparr>) = d"
        by simp
    next
      fix e r assume "domain_id (candidate.concept e) = d"
      then show "domain_id (candidate.concept (e\<lparr>semantic_score := score r\<rparr>)) = d" by simp
    qed
    with fused(4) show ?thesis by (simp add: fused_match_def create_match_domain)
  qed
qed

text \<open>
  Claim C6.  The claim holds of every filter that is not empty and has no quote in it
  (\<open>matches_have_filter_domain\<close>), but not of every filter that the code can receive:
  the token query writes the filter into its statement, where \<^verbatim>\<open>exact_match\<close> binds it
  as a parameter.  For the filter \<^verbatim>\<open>Drug' OR '1'='1\<close> and the query \<^verbatim>\<open>heart\<close> the
  statement reads \<^verbatim>\<open>... AND domain_id = 'Drug' OR '1'='1'\<close>, it selects every row, and
  the search returns a match of the domain \<open>Condition\<close>; for the filter \<^verbatim>\<open>Drug\<close> the
  same query returns no match.
\<close>

theorem domain_filter_injection:
  "search overlap_runtime demo_searcher (ustr ''heart'') (Some injection_filter) 5
     = (Inr injected_result, demo_searcher)
   \<and> domain_filter injected_result = Some injection_filter
   \<and> best_match injected_result = Some injected_match
   \<and> domain_id injected_match = ''Condition''
   \<and> injection_filter \<noteq> ''Condition''
   \<and> search overlap_runtime demo_searcher (ustr ''heart'') (Some ''Drug'') 5
     = (Inr drug_result, demo_searcher)
   \<and> best_match drug_result = None"
proof -
  have a: "search overlap_runtime demo_searcher (ustr ''heart'') (Some injection_filter) 5
     = (Inr injected_result, demo_searcher)"
    by code_simp
  have b: "search overlap_runtime demo_searcher (ustr ''heart'') (Some ''Drug'') 5
     = (Inr drug_result, demo_searcher)"
    by code_simp
  have c: "injection_filter \<noteq> ''Condition''" by (simp add: injection_filter_def)
  from a b c show ?thesis
    by (simp add: injected_result_def injected_match_def drug_result_def demo_match_def)
qed

lemma get_vocab_weight_nonneg:
  assumes "weights_nonneg cfg"
  shows "0 \<le> get_vocab_weight cfg v d"
proof -
  have prefs: "\<forall>w \<in> set p. 0 \<le> snd w" if "map_of (vocabulary_preferences cfg) k = Some p" for k p
  proof -
    from that have "(k, p) \<in> set (vocabulary_preferences cfg)" by (rule map_of_SomeD)
    with assms show ?thesis by (force simp: weights_nonneg_def list_all_iff)
  qed
  have entry: "0 \<le> (case map_of p v of Some w \<Rightarrow> w | None \<Rightarrow> default_vocab_weight cfg)"
    if "\<forall>w \<in> set p. 0 \<le> snd w" for p
  proof (cases "map_of p v")
    case None
    with assms show ?thesis by (simp add: weights_nonneg_def)
  next
    case (Some w)
    then have "(v, w) \<in> set p" by (rule map_of_SomeD)
    with that Some show ?thesis by force
  qed
  show ?thesis
  proof (cases "map_of (vocabulary_preferences cfg) d")
    case (Some p)
    with entry [OF prefs [OF Some]] show ?thesis by (simp add: get_vocab_weight_def)
  next
    case None
    show ?thesis
    proof (cases "map_of (vocabulary_preferences cfg) ''default''")
      case (Some p)
      with None entry [OF prefs [OF Some]] show ?thesis by (simp add: get_vocab_weight_def)
    next
      case default: None
      with None entry [of "[]"] show ?thesis by (simp add: get_vocab_weight_def)
    qed
  qed
qed

lemma combined_score_nonneg:
  assumes "weights_nonneg cfg" and "0 \<le> fuzzy_score e"
  shows "0 \<le> combined_score cfg e"
proof -
  from assms(2) have "0 \<le> base_score e" by (simp add: base_score_def max_def)
  moreover have "0 \<le> get_vocab_weight cfg (vocabulary_id (candidate.concept e))
      (domain_id (candidate.concept e))"
    using assms(1) by (rule get_vocab_weight_nonneg)
  ultimately show ?thesis by (simp add: combined_score_def)
qed

text \<open>
  Claim C10, as the code has it.  Every match that the search returns has a confidence of
  at most 1, and of at least 0 when the vocabulary weights of the configuration are not
  negative, whatever the semantic similarities are: a candidate whose only signal is a
  negative similarity has a base score of 0, from its fuzzy score 0 in the maximum.
  The scores of the fuzzy scorer are taken to be non-negative, as those of
  \<^verbatim>\<open>WRatio\<close> are.  Nothing bounds the confidence from below: with a vocabulary weight
  of -1 a similarity of 0.5 gives a confidence of -0.49
  (\<open>confidence_in_unit_interval_counterexample\<close>).
\<close>

theorem confidence_in_unit_interval:
  assumes sc: "\<forall>a b. 0 \<le> WRatio rt a b"
    and res: "search rt s q dfilter top_k = (Inr r, s')"
    and m: "m \<in> set (matches_of r)"
  shows "confidence m \<le> 1 \<and> (weights_nonneg (config s) \<longrightarrow> 0 \<le> confidence m)"
proof -
  define nq where "nq = normalize_text (tables rt) q"
  have fuzzy_nonneg: "0 \<le> score bf"
    if "fuzzy_match rt s nq (tokenize (tables rt) nq) dfilter = Inr fz" and "bf \<in> set fz" for fz bf
    using fuzzy_match_results [OF that] sc by auto
  from search_match_origin [OF res m]
  consider (exact) best mt tx where "m = create_match (db s) best 1 mt tx"
    | (fuzzy) fz bf mt tx where "fuzzy_match rt s nq (tokenize (tables rt) nq) dfilter = Inr fz"
      "bf \<in> set fz" "m = create_match (db s) (scored.concept bf) (score bf / 100) mt tx"
    | (fused) fz sem c where "fuzzy_match rt s nq (tokenize (tables rt) nq) dfilter = Inr fz"
      "c \<in> set (merge_and_rank (config s) fz sem dfilter top_k)" "m = fused_match s c"
    unfolding nq_def by blast
  then show ?thesis
  proof cases
    case exact
    then show ?thesis by (simp add: create_match_confidence)
  next
    case fuzzy
    from fuzzy_nonneg [OF fuzzy(1,2)] fuzzy(3) show ?thesis by (simp add: create_match_confidence)
  next
    case fused
    have "0 \<le> fuzzy_score c"
    proof (rule merge_and_rank_invariant [OF fused(2), where P = "\<lambda>e. 0 \<le> fuzzy_score e"])
      fix r assume "r \<in> set fz"
      with fuzzy_nonneg [OF fused(1)] show "0 \<le> fuzzy_score
          \<lparr>candidate.concept = scored.concept r, fuzzy_score = score r / 100, semantic_score = 0,
           candidate.match_type =
             (if source_type (scored.concept r) = Some ''name'' then FUZZY_NAME else FUZZY_SYNONYM)\<rparr>"
        by simp
    next
      fix r :: scored
      show "0 \<le> fuzzy_score
          \<lparr>candidate.concept = scored.concept r, fuzzy_score = 0, semantic_score = score r,
           candidate.match_type = SEMANTIC\<rparr>"
        by simp
    next
      fix e :: candidate and r :: scored
      assume "0 \<le> fuzzy_score e"
      then show "0 \<le> fuzzy_score (e\<lparr>semantic_score := score r\<rparr>)" by simp
    qed
    with combined_score_nonneg [of "config s" c] fused(3) show ?thesis
      by (simp add: fused_match_def create_match_confidence)
  qed
qed

lemma default_weights_nonneg: "weights_nonneg (config semantic_searcher)"
  by (simp add: weights_nonneg_def semantic_searcher_def DEFAULT_CONFIG_def)

lemma negative_search:
  "search negative_runtime semantic_searcher (ustr ''zzz'') None 5 = (Inr negative_result, semantic_searcher)"
  by code_simp

theorem confidence_in_unit_interval_witness:
  "weights_nonneg (config semantic_searcher)
   \<and> (\<forall>a b. 0 \<le> WRatio negative_runtime a b)
   \<and> search negative_runtime semantic_searcher (ustr ''zzz'') None 5
       = (Inr negative_result, semantic_searcher)
   \<and> negative_match \<in> set (matches_of negative_result)
   \<and> match_type negative_match = SEMANTIC
   \<and> 0 \<le> confidence negative_match \<and> confidence negative_match \<le> 1"
proof -
  have sc: "\<forall>a b. 0 \<le> WRatio negative_runtime a b" by (simp add: negative_runtime_def)
  have m: "negative_match \<in> set (matches_of negative_result)"
    by (simp add: matches_of_def negative_result_def)
  have t: "match_type negative_match = SEMANTIC" by (simp add: negative_match_def)
  from confidence_in_unit_interval [OF sc negative_search m]
    default_weights_nonneg sc negative_search m t
  show ?thesis by simp
qed

lemma below_zero_search:
  "search similar_runtime negative_weight_searcher (ustr ''zzz'') None 5
     = (Inr below_zero_result, negative_weight_searcher)"
  by code_simp

theorem confidence_in_unit_interval_counterexample:
  "(\<forall>a b. 0 \<le> WRatio similar_runtime a b)
   \<and> search similar_runtime negative_weight_searcher (ustr ''zzz'') None 5
       = (Inr below_zero_result, negative_weight_searcher)
   \<and> best_match below_zero_result = Some below_zero_match
   \<and> confidence below_zero_match = - 49 / 100
   \<and> confidence below_zero_match < 0"
  using below_zero_search
  by (simp add: similar_runtime_def below_zero_result_def below_zero_match_def)

lemma last_result_eq:
  "last_result k rs
     = (if filter (\<lambda>r. concept_id (scored.concept r) = k) rs = [] then None
        else Some (last (filter (\<lambda>r. concept_id (scored.concept r) = k) rs)))"
  by (simp add: last_result_def split: list.splits)

lemma last_result_snoc:
  "last_result k (rs @ [r])
     = (if concept_id (scored.concept r) = k then Some r else last_result k rs)"
  by (simp add: last_result_eq)

lemma last_result_Nil: "last_result k [] = None"
  by (simp add: last_result_def)

lemma last_result_key: "last_result k rs = Some r \<Longrightarrow> concept_id (scored.concept r) = k"
proof -
  assume "last_result k rs = Some r"
  then have ne: "filter (\<lambda>r. concept_id (scored.concept r) = k) rs \<noteq> []"
    and r: "r = last (filter (\<lambda>r. concept_id (scored.concept r) = k) rs)"
    by (simp_all add: last_result_eq split: if_splits)
  from last_in_set [OF ne] r have "r \<in> set (filter (\<lambda>r. concept_id (scored.concept r) = k) rs)"
    by simp
  then show ?thesis by simp
qed

lemma map_fst_dict_set:
  "map fst (dict_set k v d) = (if k \<in> fst ` set d then map fst d else map fst d @ [k])"
  by (induction d) (auto split: if_splits)

lemma distinct_dict_set: "distinct (map fst d) \<Longrightarrow> distinct (map fst (dict_set k v d))"
  by (simp add: map_fst_dict_set)

lemma distinct_add_fuzzy: "distinct (map fst d) \<Longrightarrow> distinct (map fst (add_fuzzy d r))"
  by (simp add: add_fuzzy_def distinct_dict_set)

lemma distinct_add_semantic: "distinct (map fst d) \<Longrightarrow> distinct (map fst (add_semantic d r))"
  by (simp add: add_semantic_def distinct_dict_set split: option.splits)

lemma distinct_foldl_add_fuzzy:
  "distinct (map fst d) \<Longrightarrow> distinct (map fst (foldl add_fuzzy d fz))"
  by (induction fz arbitrary: d) (simp_all add: distinct_add_fuzzy)

lemma distinct_foldl_add_semantic:
  "distinct (map fst d) \<Longrightarrow> distinct (map fst (foldl add_semantic d sem))"
  by (induction sem arbitrary: d) (simp_all add: distinct_add_semantic)

lemma distinct_candidates_by_id: "distinct (map fst (candidates_by_id fz sem))"
  by (simp add: candidates_by_id_def distinct_foldl_add_semantic distinct_foldl_add_fuzzy)

text \<open>The dictionary after the first loop.\<close>

lemma map_of_foldl_add_fuzzy:
  "map_of (foldl add_fuzzy [] fz) k
     = (case last_result k fz of
          None \<Rightarrow> None
        | Some r \<Rightarrow> Some \<lparr>candidate.concept = scored.concept r, fuzzy_score = score r / 100,
                           semantic_score = 0,
                           candidate.match_type =
                             (if source_type (scored.concept r) = Some ''name''
                              then FUZZY_NAME else FUZZY_SYNONYM)\<rparr>)"
proof (induction fz rule: rev_induct)
  case Nil
  then show ?case by (simp add: last_result_Nil)
next
  case (snoc r fz)
  have "map_of (add_fuzzy D r) k
      = (if k = concept_id (scored.concept r)
         then Some \<lparr>candidate.concept = scored.concept r, fuzzy_score = score r / 100,
                       semantic_score = 0,
                       candidate.match_type =
                         (if source_type (scored.concept r) = Some ''name''
                          then FUZZY_NAME else FUZZY_SYNONYM)\<rparr>
         else map_of D k)" for D
    by (simp add: add_fuzzy_def map_of_dict_set)
  with snoc show ?case by (simp add: last_result_snoc)
qed

text \<open>What the second loop keeps and what it writes.\<close>

lemma map_of_add_semantic:
  "map_of (add_semantic D r) k
     = (if k = concept_id (scored.concept r)
        then (case map_of D k of
                None \<Rightarrow> Some \<lparr>candidate.concept = scored.concept r, fuzzy_score = 0,
                                semantic_score = score r, candidate.match_type = SEMANTIC\<rparr>
              | Some e \<Rightarrow> Some (e\<lparr>semantic_score := score r\<rparr>))
        else map_of D k)"
  by (simp add: add_semantic_def map_of_dict_set split: option.splits)

lemma map_of_add_semantic_None: "map_of (add_semantic D r) k = None \<Longrightarrow> map_of D k = None"
  by (simp add: map_of_add_semantic split: if_splits option.splits)

lemma map_of_foldl_add_semantic_None:
  "map_of (foldl add_semantic d sem) k = None \<Longrightarrow> map_of d k = None"
proof (induction sem rule: rev_induct)
  case Nil
  then show ?case by simp
next
  case (snoc r sem)
  from snoc.prems have "map_of (add_semantic (foldl add_semantic d sem) r) k = None" by simp
  then have "map_of (foldl add_semantic d sem) k = None" by (rule map_of_add_semantic_None)
  then show ?case by (rule snoc.IH)
qed

lemma map_of_foldl_add_semantic:
  assumes "\<forall>k e. map_of d k = Some e \<longrightarrow> concept_id (candidate.concept e) = k"
    and "map_of (foldl add_semantic d sem) k = Some e"
  shows "entry_ok d sem k e"
  using assms(2)
proof (induction sem arbitrary: e rule: rev_induct)
  case Nil
  with assms(1) show ?case by (simp add: entry_ok_def last_result_Nil)
next
  case (snoc r sem)
  define F where "F = foldl add_semantic d sem"
  show ?case
  proof (cases "concept_id (scored.concept r) = k")
    case False
    with snoc.prems have "map_of F k = Some e"
      by (simp add: F_def map_of_add_semantic)
    from snoc.IH [OF this [unfolded F_def]] False show ?thesis
      by (simp add: entry_ok_def last_result_snoc)
  next
    case True
    show ?thesis
    proof (cases "map_of F k")
      case None
      with True snoc.prems have e: "e = \<lparr>candidate.concept = scored.concept r, fuzzy_score = 0,
          semantic_score = score r, candidate.match_type = SEMANTIC\<rparr>"
        by (simp add: F_def map_of_add_semantic)
      from None have "map_of d k = None"
        unfolding F_def by (rule map_of_foldl_add_semantic_None)
      with e True show ?thesis by (simp add: entry_ok_def last_result_snoc)
    next
      case (Some e0)
      with True snoc.prems have e: "e = e0\<lparr>semantic_score := score r\<rparr>"
        by (simp add: F_def map_of_add_semantic)
      from snoc.IH [OF Some [unfolded F_def]] have "entry_ok d sem k e0" .
      with e True show ?thesis by (simp add: entry_ok_def last_result_snoc)
    qed
  qed
qed

lemma candidates_by_id_entry:
  assumes "(k, e) \<in> set (candidates_by_id fz sem)"
  shows "concept_id (candidate.concept e) = k
       \<and> fuzzy_score e = (case last_result k fz of None \<Rightarrow> 0 | Some r \<Rightarrow> score r / 100)
       \<and> semantic_score e = (case last_result k sem of None \<Rightarrow> 0 | Some r \<Rightarrow> score r)"
proof -
  define d where "d = foldl add_fuzzy [] fz"
  from assms distinct_candidates_by_id [of fz sem]
  have "map_of (candidates_by_id fz sem) k = Some e" by simp
  then have m: "map_of (foldl add_semantic d sem) k = Some e"
    by (simp add: candidates_by_id_def d_def)
  have keys: "\<forall>k e. map_of d k = Some e \<longrightarrow> concept_id (candidate.concept e) = k"
  proof (intro allI impI)
    fix k e assume "map_of d k = Some e"
    then obtain r where r: "last_result k fz = Some r"
      and e: "candidate.concept e = scored.concept r"
      by (auto simp: d_def map_of_foldl_add_fuzzy split: option.splits)
    from last_result_key [OF r] e show "concept_id (candidate.concept e) = k" by simp
  qed
  from map_of_foldl_add_semantic [OF keys m] show ?thesis
    by (auto simp: entry_ok_def d_def map_of_foldl_add_fuzzy split: option.splits)
qed

lemma combined_score_spec:
  assumes "c \<in> set (merge_and_rank cfg fz sem df k)"
  shows "min (combined_score cfg c) 1 = spec_confidence cfg fz sem (candidate.concept c)"
proof -
  from assms have "c \<in> set (py_take (k * 2) (sort_desc (combined_score cfg)
      (map snd (candidates_by_id fz sem))))"
    by (simp only: merge_and_rank_def)
  with set_py_take [of "k * 2" "sort_desc (combined_score cfg) (map snd (candidates_by_id fz sem))"]
  have "c \<in> set (sort_desc (combined_score cfg) (map snd (candidates_by_id fz sem)))"
    by (rule subsetD)
  then obtain i where "(i, c) \<in> set (candidates_by_id fz sem)" by (auto simp: set_sort_desc)
  from candidates_by_id_entry [OF this] show ?thesis
    by (simp add: spec_confidence_def combined_score_def base_score_def Let_def min.commute
        mult.commute [of _ "7 / 10"] mult.commute [of _ "3 / 10"])
qed

text \<open>
  Claim C4: in the fused ranking tier the final confidence of each candidate is the
  maximum of \<open>0.7 * fuzzy_norm + 0.3 * semantic_norm\<close>, \<open>fuzzy_norm\<close> and
  \<open>semantic_norm\<close>, times the vocabulary weight, the source-type boost (1 for a name,
  0.98 otherwise) and the standardness boost (1 for a standard concept, 0.95 otherwise),
  capped at 1.  \<open>fuzzy_norm\<close> is the fuzzy score of the candidate divided by 100 and
  \<open>semantic_norm\<close> its similarity, each 0 when the candidate has no such result and
  each taken from the last result of its concept id.  \<open>spec_confidence\<close> is this
  formula, written from the words of the specification.
\<close>

theorem fused_confidence:
  assumes "m \<in> set (matches_of (fused_result s q nq dfilter top_k fuzzy_results semantic_results ws))"
  shows "\<exists>c \<in> set (merge_and_rank (config s) fuzzy_results semantic_results dfilter top_k).
           m = fused_match s c
           \<and> confidence m
               = spec_confidence (config s) fuzzy_results semantic_results (candidate.concept c)"
proof -
  from fused_result_matches [OF assms] obtain c
    where c: "c \<in> set (merge_and_rank (config s) fuzzy_results semantic_results dfilter top_k)"
      and m: "m = fused_match s c" by blast
  from combined_score_spec [OF c] m
  have "confidence m = spec_confidence (config s) fuzzy_results semantic_results (candidate.concept c)"
    by (simp add: fused_match_def create_match_confidence)
  with c m show ?thesis by blast
qed

lemma fused_demo_member:
  "fused_demo_match \<in> set (matches_of
     (fused_result demo_searcher (ustr ''heart'') (ustr ''heart'') None 5 demo_fuzzy demo_semantic []))"
  by code_simp

lemma fused_demo_spec:
  "spec_confidence (config demo_searcher) demo_fuzzy demo_semantic demo_candidate = 684 / 1000"
  by code_simp

theorem fused_confidence_witness:
  "fused_demo_match \<in> set (matches_of
     (fused_result demo_searcher (ustr ''heart'') (ustr ''heart'') None 5 demo_fuzzy demo_semantic []))
   \<and> confidence fused_demo_match = 684 / 1000
   \<and> spec_confidence (config demo_searcher) demo_fuzzy demo_semantic demo_candidate = 684 / 1000
   \<and> (\<exists>c \<in> set (merge_and_rank (config demo_searcher) demo_fuzzy demo_semantic None 5).
         fused_demo_match = fused_match demo_searcher c
         \<and> confidence fused_demo_match
             = spec_confidence (config demo_searcher) demo_fuzzy demo_semantic (candidate.concept c))"
proof (intro conjI)
  show "fused_demo_match \<in> set (matches_of
     (fused_result demo_searcher (ustr ''heart'') (ustr ''heart'') None 5 demo_fuzzy demo_semantic []))"
    by (rule fused_demo_member)
  show "confidence fused_demo_match = 684 / 1000" by (simp add: fused_demo_match_def)
  show "spec_confidence (config demo_searcher) demo_fuzzy demo_semantic demo_candidate = 684 / 1000"
    by (rule fused_demo_spec)
  show "\<exists>c \<in> set (merge_and_rank (config demo_searcher) demo_fuzzy demo_semantic None 5).
         fused_demo_match = fused_match demo_searcher c
         \<and> confidence fused_demo_match
             = spec_confidence (config demo_searcher) demo_fuzzy demo_semantic (candidate.concept c)"
    by (rule fused_confidence [OF fused_demo_member])
qed

lemma lookup_default_search:
  "lookup negative_runtime fresh_process (ustr ''zzz'') None None None None
     = (Inr none_result,
        \<lparr>searcher_instance = Some \<lparr>config = DEFAULT_CONFIG, db = demo_db, enable_semantic = False\<rparr>\<rparr>)"
  by code_simp

lemma lookup_semantic_search:
  "lookup negative_runtime fresh_process (ustr ''zzz'') None None (Some True) None
     = (Inr negative_result,
        \<lparr>searcher_instance = Some \<lparr>config = DEFAULT_CONFIG, db = demo_db, enable_semantic = True\<rparr>\<rparr>)"
  by code_simp

lemma fuzzy_match_semantic:
  "fuzzy_match (rt\<lparr>semantic := index\<rparr>) s nq tokens dfilter = fuzzy_match rt s nq tokens dfilter"
  by (simp add: fuzzy_match_def split: sum.splits)

lemma semantic_tier_disabled:
  "\<not> enable_semantic s \<Longrightarrow>
     semantic_tier (rt\<lparr>semantic := index\<rparr>) s nq dfilter k = semantic_tier rt s nq dfilter k"
  by (simp add: semantic_tier_def)

lemma search_semantic_disabled:
  "\<not> enable_semantic s \<Longrightarrow> search (rt\<lparr>semantic := index\<rparr>) s q dfilter k = search rt s q dfilter k"
  by (simp add: search_def Let_def fuzzy_match_semantic semantic_tier_disabled
        cong: sum.case_cong if_cong)

text \<open>
  Claim C9, as the code has it.  The single-query \<^verbatim>\<open>lookup\<close> takes a query, an optional
  domain, \<^verbatim>\<open>top_k\<close> with the default 10 and the flag \<^verbatim>\<open>enable_semantic\<close> with the default
  \<^verbatim>\<open>False\<close>: a call that leaves \<^verbatim>\<open>top_k\<close> out is the call with 10, a call that leaves the
  flag out is the call with the flag off, and in a process that has no searcher yet the
  result of such a call does not depend on the semantic index at all.  A call with the flag
  on gives another result (\<open>lookup_defaults_counterexample\<close>).
\<close>

theorem lookup_defaults:
  "lookup rt g q domain None es cfg = lookup rt g q domain (Some 10) es cfg
   \<and> lookup rt g q domain top_k None cfg = lookup rt g q domain top_k (Some False) cfg
   \<and> (searcher_instance g = None \<longrightarrow>
        lookup (rt\<lparr>semantic := index\<rparr>) g q domain top_k None cfg
          = lookup rt g q domain top_k None cfg)"
  by (simp add: lookup_def get_searcher_def Let_def search_semantic_disabled)

theorem lookup_defaults_witness:
  "searcher_instance fresh_process = None
   \<and> lookup negative_runtime fresh_process (ustr ''zzz'') None None None None
     = lookup negative_runtime fresh_process (ustr ''zzz'') None (Some 10) (Some False) None
   \<and> lookup (negative_runtime\<lparr>semantic := Not_Available\<rparr>) fresh_process (ustr ''zzz'')
       None None None None
     = lookup negative_runtime fresh_process (ustr ''zzz'') None None None None
   \<and> fst (lookup negative_runtime fresh_process (ustr ''zzz'') None (Some 10) (Some False) None)
     = Inr none_result"
proof -
  have fresh: "searcher_instance fresh_process = None"
    by (simp add: fresh_process_def)
  note defaults = lookup_defaults [where rt = negative_runtime and g = fresh_process
      and q = "ustr ''zzz''" and domain = None and es = "Some False" and cfg = None
      and top_k = None and index = Not_Available]
  from defaults
  have same: "lookup negative_runtime fresh_process (ustr ''zzz'') None None None None
     = lookup negative_runtime fresh_process (ustr ''zzz'') None (Some 10) (Some False) None"
    by simp
  from defaults fresh
  have index: "lookup (negative_runtime\<lparr>semantic := Not_Available\<rparr>) fresh_process
       (ustr ''zzz'') None None None None
     = lookup negative_runtime fresh_process (ustr ''zzz'') None None None None"
    by blast
  from lookup_default_search same
  have "fst (lookup negative_runtime fresh_process (ustr ''zzz'') None (Some 10) (Some False) None)
     = Inr none_result"
    by simp
  with fresh same index show ?thesis by blast
qed

theorem lookup_defaults_counterexample:
  "fst (lookup negative_runtime fresh_process (ustr ''zzz'') None None None None) = Inr none_result
   \<and> fst (lookup negative_runtime fresh_process (ustr ''zzz'') None None (Some True) None)
       = Inr negative_result
   \<and> best_match none_result = None
   \<and> best_match negative_result = Some negative_match
   \<and> none_result \<noteq> negative_result"
  using lookup_default_search lookup_semantic_search
  by (simp add: none_result_def negative_result_def)









end
